theory Spec2Isabelle
  imports Complex_Main "HOL-Library.Sublist" "HOL-Library.Multiset" "HOL-Library.Log_Nat"
begin

section \<open>Conventions of the embedding\<close>

text \<open>
  The three classes of \<^verbatim>\<open>src/services/EnhancedSchedulingEngine.js\<close> are embedded:
  \<^verbatim>\<open>EnhancedSchedulingEngine\<close>, \<^verbatim>\<open>SchedulingEngine\<close> and \<^verbatim>\<open>AutoTaskGenerator\<close>.

  \<^item> A JavaScript number is given by its exact value: an \<open>int\<close> in \<^verbatim>\<open>AutoTaskGenerator\<close>,
    whose minute values are integers (\<^verbatim>\<open>Math.round\<close>, \<^verbatim>\<open>timeToMinutes\<close>), and a \<open>rat\<close> in the
    two scheduling engines, where \<^verbatim>\<open>targetHoursPerDay * 60\<close> need not be an integer.
  \<^item> The scores of the slots are computed as the code computes them, in binary64 with
    rounding to nearest after every operation (\<open>toDouble\<close>): which slot is selected depends
    on comparing them. Times and durations are added and subtracted exactly, as the doubles
    do for whole numbers of minutes.
  \<^item> A \<^verbatim>\<open>Date\<close> of the target day is the number of minutes since the start of that day.
  \<^item> A record field whose source name is taken by another record or by HOL carries a prefix;
    the variables \<^verbatim>\<open>count\<close> and \<^verbatim>\<open>sum\<close> are written \<open>cnt\<close> and \<open>tot\<close>.
\<close>

section \<open>Strings and numbers of the host language\<close>

text \<open>
  Strings are byte lists in UTF-8; the non-ASCII literals of the source are written byte by
  byte. A character is matched by the bytes of its encoding, which start at the first byte
  of a character only.
\<close>

text \<open>
  The upper-case letters that \<^verbatim>\<open>toLowerCase\<close> replaces, each with its lower-case letter: the
  letters of ASCII, of Latin-1 and of the Vietnamese alphabet. Every other character is left
  as it is.
\<close>

definition lowerCaseTable :: "(string \<times> string) list" where
  "lowerCaseTable =
     zip (map (\<lambda>c. [c]) ''ABCDEFGHIJKLMNOPQRSTUVWXYZ'')
         (map (\<lambda>c. [c]) ''abcdefghijklmnopqrstuvwxyz'') @
     [([CHR 0xC3, CHR 0x80], [CHR 0xC3, CHR 0xA0]),
      ([CHR 0xC3, CHR 0x81], [CHR 0xC3, CHR 0xA1]),
      ([CHR 0xC3, CHR 0x82], [CHR 0xC3, CHR 0xA2]),
      ([CHR 0xC3, CHR 0x83], [CHR 0xC3, CHR 0xA3]),
      ([CHR 0xC3, CHR 0x84], [CHR 0xC3, CHR 0xA4]),
      ([CHR 0xC3, CHR 0x85], [CHR 0xC3, CHR 0xA5]),
      ([CHR 0xC3, CHR 0x86], [CHR 0xC3, CHR 0xA6]),
      ([CHR 0xC3, CHR 0x87], [CHR 0xC3, CHR 0xA7]),
      ([CHR 0xC3, CHR 0x88], [CHR 0xC3, CHR 0xA8]),
      ([CHR 0xC3, CHR 0x89], [CHR 0xC3, CHR 0xA9]),
      ([CHR 0xC3, CHR 0x8A], [CHR 0xC3, CHR 0xAA]),
      ([CHR 0xC3, CHR 0x8B], [CHR 0xC3, CHR 0xAB]),
      ([CHR 0xC3, CHR 0x8C], [CHR 0xC3, CHR 0xAC]),
      ([CHR 0xC3, CHR 0x8D], [CHR 0xC3, CHR 0xAD]),
      ([CHR 0xC3, CHR 0x8E], [CHR 0xC3, CHR 0xAE]),
      ([CHR 0xC3, CHR 0x8F], [CHR 0xC3, CHR 0xAF]),
      ([CHR 0xC3, CHR 0x90], [CHR 0xC3, CHR 0xB0]),
      ([CHR 0xC3, CHR 0x91], [CHR 0xC3, CHR 0xB1]),
      ([CHR 0xC3, CHR 0x92], [CHR 0xC3, CHR 0xB2]),
      ([CHR 0xC3, CHR 0x93], [CHR 0xC3, CHR 0xB3]),
      ([CHR 0xC3, CHR 0x94], [CHR 0xC3, CHR 0xB4]),
      ([CHR 0xC3, CHR 0x95], [CHR 0xC3, CHR 0xB5]),
      ([CHR 0xC3, CHR 0x96], [CHR 0xC3, CHR 0xB6]),
      ([CHR 0xC3, CHR 0x98], [CHR 0xC3, CHR 0xB8]),
      ([CHR 0xC3, CHR 0x99], [CHR 0xC3, CHR 0xB9]),
      ([CHR 0xC3, CHR 0x9A], [CHR 0xC3, CHR 0xBA]),
      ([CHR 0xC3, CHR 0x9B], [CHR 0xC3, CHR 0xBB]),
      ([CHR 0xC3, CHR 0x9C], [CHR 0xC3, CHR 0xBC]),
      ([CHR 0xC3, CHR 0x9D], [CHR 0xC3, CHR 0xBD]),
      ([CHR 0xC3, CHR 0x9E], [CHR 0xC3, CHR 0xBE]),
      ([CHR 0xC4, CHR 0x82], [CHR 0xC4, CHR 0x83]),
      ([CHR 0xC4, CHR 0x90], [CHR 0xC4, CHR 0x91]),
      ([CHR 0xC4, CHR 0xA8], [CHR 0xC4, CHR 0xA9]),
      ([CHR 0xC5, CHR 0xA8], [CHR 0xC5, CHR 0xA9]),
      ([CHR 0xC6, CHR 0xA0], [CHR 0xC6, CHR 0xA1]),
      ([CHR 0xC6, CHR 0xAF], [CHR 0xC6, CHR 0xB0]),
      ([CHR 0xE1, CHR 0xBA, CHR 0xA0], [CHR 0xE1, CHR 0xBA, CHR 0xA1]),
      ([CHR 0xE1, CHR 0xBA, CHR 0xA2], [CHR 0xE1, CHR 0xBA, CHR 0xA3]),
      ([CHR 0xE1, CHR 0xBA, CHR 0xA4], [CHR 0xE1, CHR 0xBA, CHR 0xA5]),
      ([CHR 0xE1, CHR 0xBA, CHR 0xA6], [CHR 0xE1, CHR 0xBA, CHR 0xA7]),
      ([CHR 0xE1, CHR 0xBA, CHR 0xA8], [CHR 0xE1, CHR 0xBA, CHR 0xA9]),
      ([CHR 0xE1, CHR 0xBA, CHR 0xAA], [CHR 0xE1, CHR 0xBA, CHR 0xAB]),
      ([CHR 0xE1, CHR 0xBA, CHR 0xAC], [CHR 0xE1, CHR 0xBA, CHR 0xAD]),
      ([CHR 0xE1, CHR 0xBA, CHR 0xAE], [CHR 0xE1, CHR 0xBA, CHR 0xAF]),
      ([CHR 0xE1, CHR 0xBA, CHR 0xB0], [CHR 0xE1, CHR 0xBA, CHR 0xB1]),
      ([CHR 0xE1, CHR 0xBA, CHR 0xB2], [CHR 0xE1, CHR 0xBA, CHR 0xB3]),
      ([CHR 0xE1, CHR 0xBA, CHR 0xB4], [CHR 0xE1, CHR 0xBA, CHR 0xB5]),
      ([CHR 0xE1, CHR 0xBA, CHR 0xB6], [CHR 0xE1, CHR 0xBA, CHR 0xB7]),
      ([CHR 0xE1, CHR 0xBA, CHR 0xB8], [CHR 0xE1, CHR 0xBA, CHR 0xB9]),
      ([CHR 0xE1, CHR 0xBA, CHR 0xBA], [CHR 0xE1, CHR 0xBA, CHR 0xBB]),
      ([CHR 0xE1, CHR 0xBA, CHR 0xBC], [CHR 0xE1, CHR 0xBA, CHR 0xBD]),
      ([CHR 0xE1, CHR 0xBA, CHR 0xBE], [CHR 0xE1, CHR 0xBA, CHR 0xBF]),
      ([CHR 0xE1, CHR 0xBB, CHR 0x80], [CHR 0xE1, CHR 0xBB, CHR 0x81]),
      ([CHR 0xE1, CHR 0xBB, CHR 0x82], [CHR 0xE1, CHR 0xBB, CHR 0x83]),
      ([CHR 0xE1, CHR 0xBB, CHR 0x84], [CHR 0xE1, CHR 0xBB, CHR 0x85]),
      ([CHR 0xE1, CHR 0xBB, CHR 0x86], [CHR 0xE1, CHR 0xBB, CHR 0x87]),
      ([CHR 0xE1, CHR 0xBB, CHR 0x88], [CHR 0xE1, CHR 0xBB, CHR 0x89]),
      ([CHR 0xE1, CHR 0xBB, CHR 0x8A], [CHR 0xE1, CHR 0xBB, CHR 0x8B]),
      ([CHR 0xE1, CHR 0xBB, CHR 0x8C], [CHR 0xE1, CHR 0xBB, CHR 0x8D]),
      ([CHR 0xE1, CHR 0xBB, CHR 0x8E], [CHR 0xE1, CHR 0xBB, CHR 0x8F]),
      ([CHR 0xE1, CHR 0xBB, CHR 0x90], [CHR 0xE1, CHR 0xBB, CHR 0x91]),
      ([CHR 0xE1, CHR 0xBB, CHR 0x92], [CHR 0xE1, CHR 0xBB, CHR 0x93]),
      ([CHR 0xE1, CHR 0xBB, CHR 0x94], [CHR 0xE1, CHR 0xBB, CHR 0x95]),
      ([CHR 0xE1, CHR 0xBB, CHR 0x96], [CHR 0xE1, CHR 0xBB, CHR 0x97]),
      ([CHR 0xE1, CHR 0xBB, CHR 0x98], [CHR 0xE1, CHR 0xBB, CHR 0x99]),
      ([CHR 0xE1, CHR 0xBB, CHR 0x9A], [CHR 0xE1, CHR 0xBB, CHR 0x9B]),
      ([CHR 0xE1, CHR 0xBB, CHR 0x9C], [CHR 0xE1, CHR 0xBB, CHR 0x9D]),
      ([CHR 0xE1, CHR 0xBB, CHR 0x9E], [CHR 0xE1, CHR 0xBB, CHR 0x9F]),
      ([CHR 0xE1, CHR 0xBB, CHR 0xA0], [CHR 0xE1, CHR 0xBB, CHR 0xA1]),
      ([CHR 0xE1, CHR 0xBB, CHR 0xA2], [CHR 0xE1, CHR 0xBB, CHR 0xA3]),
      ([CHR 0xE1, CHR 0xBB, CHR 0xA4], [CHR 0xE1, CHR 0xBB, CHR 0xA5]),
      ([CHR 0xE1, CHR 0xBB, CHR 0xA6], [CHR 0xE1, CHR 0xBB, CHR 0xA7]),
      ([CHR 0xE1, CHR 0xBB, CHR 0xA8], [CHR 0xE1, CHR 0xBB, CHR 0xA9]),
      ([CHR 0xE1, CHR 0xBB, CHR 0xAA], [CHR 0xE1, CHR 0xBB, CHR 0xAB]),
      ([CHR 0xE1, CHR 0xBB, CHR 0xAC], [CHR 0xE1, CHR 0xBB, CHR 0xAD]),
      ([CHR 0xE1, CHR 0xBB, CHR 0xAE], [CHR 0xE1, CHR 0xBB, CHR 0xAF]),
      ([CHR 0xE1, CHR 0xBB, CHR 0xB0], [CHR 0xE1, CHR 0xBB, CHR 0xB1]),
      ([CHR 0xE1, CHR 0xBB, CHR 0xB2], [CHR 0xE1, CHR 0xBB, CHR 0xB3]),
      ([CHR 0xE1, CHR 0xBB, CHR 0xB4], [CHR 0xE1, CHR 0xBB, CHR 0xB5]),
      ([CHR 0xE1, CHR 0xBB, CHR 0xB6], [CHR 0xE1, CHR 0xBB, CHR 0xB7]),
      ([CHR 0xE1, CHR 0xBB, CHR 0xB8], [CHR 0xE1, CHR 0xBB, CHR 0xB9])]"

function toLowerCase :: "string \<Rightarrow> string" where
  "toLowerCase [] = []"
| "toLowerCase (c # s) =
     (case find (\<lambda>(upper, lower). prefix upper (c # s)) lowerCaseTable of
        None \<Rightarrow> c # toLowerCase s
      | Some (upper, lower) \<Rightarrow> lower @ toLowerCase (drop (length upper - 1) s))"
  by pat_completeness auto
termination
  by (relation "measure length") auto

declare toLowerCase.simps(2) [simp del]

text \<open>
  The characters that the pattern \<^verbatim>\<open>\s\<close> matches: tab, line feed, vertical tab, form feed,
  carriage return, space, and U+00A0, U+1680, U+2000 to U+200A, U+2028, U+2029, U+202F, U+205F,
  U+3000 and U+FEFF.
\<close>

definition whiteSpace :: "string list" where
  "whiteSpace =
     map (\<lambda>c. [c]) [CHR 0x09, CHR 0x0A, CHR 0x0B, CHR 0x0C, CHR 0x0D, CHR 0x20] @
     [[CHR 0xC2, CHR 0xA0],
      [CHR 0xE1, CHR 0x9A, CHR 0x80],
      [CHR 0xE2, CHR 0x80, CHR 0x80],
      [CHR 0xE2, CHR 0x80, CHR 0x81],
      [CHR 0xE2, CHR 0x80, CHR 0x82],
      [CHR 0xE2, CHR 0x80, CHR 0x83],
      [CHR 0xE2, CHR 0x80, CHR 0x84],
      [CHR 0xE2, CHR 0x80, CHR 0x85],
      [CHR 0xE2, CHR 0x80, CHR 0x86],
      [CHR 0xE2, CHR 0x80, CHR 0x87],
      [CHR 0xE2, CHR 0x80, CHR 0x88],
      [CHR 0xE2, CHR 0x80, CHR 0x89],
      [CHR 0xE2, CHR 0x80, CHR 0x8A],
      [CHR 0xE2, CHR 0x80, CHR 0xA8],
      [CHR 0xE2, CHR 0x80, CHR 0xA9],
      [CHR 0xE2, CHR 0x80, CHR 0xAF],
      [CHR 0xE2, CHR 0x81, CHR 0x9F],
      [CHR 0xE3, CHR 0x80, CHR 0x80],
      [CHR 0xEF, CHR 0xBB, CHR 0xBF]]"

text \<open>\<^verbatim>\<open>s.replace(/\s+/g, '')\<close>\<close>

function removeWhitespace :: "string \<Rightarrow> string" where
  "removeWhitespace [] = []"
| "removeWhitespace (c # s) =
     (case find (\<lambda>w. prefix w (c # s)) whiteSpace of
        None \<Rightarrow> c # removeWhitespace s
      | Some w \<Rightarrow> removeWhitespace (drop (length w - 1) s))"
  by pat_completeness auto
termination
  by (relation "measure length") auto

declare removeWhitespace.simps(2) [simp del]

text \<open>\<^verbatim>\<open>s.includes(t)\<close>: \<open>t\<close> occurs in \<open>s\<close> as a contiguous substring.\<close>

fun str_includes :: "string \<Rightarrow> string \<Rightarrow> bool" where
  "str_includes s [] = True"
| "str_includes [] (c # t) = False"
| "str_includes (x # s) (c # t) = (prefix (c # t) (x # s) \<or> str_includes s (c # t))"

text \<open>\<^verbatim>\<open>xs.indexOf(x)\<close>, with \<open>None\<close> for \<open>-1\<close>.\<close>

fun indexOf :: "'a list \<Rightarrow> 'a \<Rightarrow> nat option" where
  "indexOf [] x = None"
| "indexOf (y # ys) x = (if y = x then Some 0 else map_option Suc (indexOf ys x))"

text \<open>
  The value of a score: a finite double, given by its exact value, an infinity or \<^verbatim>\<open>NaN\<close>.
  The two zeros are not told apart; they differ only as divisors.
\<close>

datatype jsnum = Fin rat | PosInf | NegInf | NaN

text \<open>
  Rounding of a real number to binary64, to nearest and ties to even: \<open>exponentOf x\<close> is the
  \<open>e\<close> with \<open>2 ^ e \<le> x < 2 ^ (e + 1)\<close>, the significand has 53 bits, the least exponent is
  \<open>-1022\<close> (below it the numbers are subnormal, multiples of \<open>2 ^ -1074\<close>), and a result of
  \<open>2 ^ 1024\<close> or more is an infinity.
\<close>

definition pow2 :: "int \<Rightarrow> rat" where
  "pow2 e = (if 0 \<le> e then 2 ^ nat e else 1 / 2 ^ nat (- e))"

definition roundHalfEven :: "rat \<Rightarrow> int" where
  "roundHalfEven x =
     (let n = \<lfloor>x\<rfloor>; r = x - of_int n
      in if r < 1 / 2 then n else if 1 / 2 < r then n + 1 else if even n then n else n + 1)"

definition exponentOf :: "rat \<Rightarrow> int" where
  "exponentOf x =
     (if 1 \<le> x then bitlen \<lfloor>x\<rfloor> - 1
      else let k = bitlen \<lfloor>1 / x\<rfloor> - 1 in if x = pow2 (- k) then - k else - k - 1)"

definition toDouble :: "rat \<Rightarrow> jsnum" where
  "toDouble x =
     (if x = 0 then Fin 0
      else
        let a = \<bar>x\<bar>;
            e = max (exponentOf a) (- 1022);
            q = pow2 (e - 52);
            m = roundHalfEven (a / q);
            y = of_int m * q
        in if 1023 < e \<or> (e = 1023 \<and> 2 ^ 53 \<le> m) then (if 0 < x then PosInf else NegInf)
           else Fin (if 0 < x then y else - y))"

text \<open>
  \<^verbatim>\<open>a / b\<close> on finite numbers: a division by a \<^verbatim>\<open>preferred\<close> length of zero gives \<^verbatim>\<open>NaN\<close> or
  an infinity, which then survive every addition, and every comparison with \<^verbatim>\<open>NaN\<close> is
  false.
\<close>

definition js_div :: "rat \<Rightarrow> rat \<Rightarrow> jsnum" where
  "js_div a b =
     (if b \<noteq> 0 then toDouble (a / b)
      else if a = 0 then NaN else if 0 < a then PosInf else NegInf)"

text \<open>Multiplication by a positive finite number, and addition of a finite number.\<close>

fun js_scale :: "jsnum \<Rightarrow> rat \<Rightarrow> jsnum" where
  "js_scale (Fin x) k = toDouble (x * k)"
| "js_scale v k = v"

fun js_add :: "jsnum \<Rightarrow> rat \<Rightarrow> jsnum" where
  "js_add (Fin x) k = toDouble (x + k)"
| "js_add v k = v"

fun js_gt :: "jsnum \<Rightarrow> jsnum \<Rightarrow> bool" where
  "js_gt (Fin a) (Fin b) = (b < a)"
| "js_gt (Fin a) NegInf = True"
| "js_gt PosInf (Fin b) = True"
| "js_gt PosInf NegInf = True"
| "js_gt a b = False"

text \<open>
  \<^verbatim>\<open>current.score > best.score\<close> on objects whose \<^verbatim>\<open>score\<close> may be missing: \<^verbatim>\<open>undefined\<close>
  converts to \<^verbatim>\<open>NaN\<close>.
\<close>

definition score_gt :: "jsnum option \<Rightarrow> jsnum option \<Rightarrow> bool" where
  "score_gt a b = js_gt (case a of None \<Rightarrow> NaN | Some x \<Rightarrow> x) (case b of None \<Rightarrow> NaN | Some y \<Rightarrow> y)"

section \<open>EnhancedSchedulingEngine\<close>

subsection \<open>Configuration tables\<close>

record bufferConfig =
  before :: rat
  after :: rat

datatype bufferKey = Meal | Work | Study | Personal | Default

fun BUFFER_CONFIG :: "bufferKey \<Rightarrow> bufferConfig" where
  "BUFFER_CONFIG Meal = \<lparr>before = 30, after = 45\<rparr>"
| "BUFFER_CONFIG Work = \<lparr>before = 15, after = 15\<rparr>"
| "BUFFER_CONFIG Study = \<lparr>before = 15, after = 15\<rparr>"
| "BUFFER_CONFIG Personal = \<lparr>before = 10, after = 10\<rparr>"
| "BUFFER_CONFIG Default = \<lparr>before = 15, after = 15\<rparr>"

record templateSession =
  ts_topic :: string
  ts_duration :: rat
  ts_order :: int

definition defaultSessions :: "templateSession list" where
  "defaultSessions =
     [\<lparr>ts_topic = ''Foundation'', ts_duration = 45, ts_order = 1\<rparr>,
      \<lparr>ts_topic = ''Core Concepts'', ts_duration = 60, ts_order = 2\<rparr>,
      \<lparr>ts_topic = ''Practice'', ts_duration = 50, ts_order = 3\<rparr>,
      \<lparr>ts_topic = ''Advanced Topics'', ts_duration = 75, ts_order = 4\<rparr>,
      \<lparr>ts_topic = ''Application'', ts_duration = 90, ts_order = 5\<rparr>]"

text \<open>The object literal, as the list of its entries in insertion order.\<close>

definition LEARNING_TEMPLATES :: "(string \<times> templateSession list) list" where
  "LEARNING_TEMPLATES =
     [(''javascript'',
        [\<lparr>ts_topic = ''Syntax & Basics'', ts_duration = 45, ts_order = 1\<rparr>,
         \<lparr>ts_topic = ''Functions & Objects'', ts_duration = 60, ts_order = 2\<rparr>,
         \<lparr>ts_topic = ''DOM Manipulation'', ts_duration = 50, ts_order = 3\<rparr>,
         \<lparr>ts_topic = ''Async Programming'', ts_duration = 70, ts_order = 4\<rparr>,
         \<lparr>ts_topic = ''Practice Projects'', ts_duration = 90, ts_order = 5\<rparr>]),
      (''react'',
        [\<lparr>ts_topic = ''Components & JSX'', ts_duration = 45, ts_order = 1\<rparr>,
         \<lparr>ts_topic = ''State & Props'', ts_duration = 60, ts_order = 2\<rparr>,
         \<lparr>ts_topic = ''Hooks'', ts_duration = 75, ts_order = 3\<rparr>,
         \<lparr>ts_topic = ''Routing'', ts_duration = 45, ts_order = 4\<rparr>,
         \<lparr>ts_topic = ''State Management'', ts_duration = 90, ts_order = 5\<rparr>]),
      (''python'',
        [\<lparr>ts_topic = ''Syntax & Data Types'', ts_duration = 45, ts_order = 1\<rparr>,
         \<lparr>ts_topic = ''Control Flow'', ts_duration = 50, ts_order = 2\<rparr>,
         \<lparr>ts_topic = ''Functions & Modules'', ts_duration = 60, ts_order = 3\<rparr>,
         \<lparr>ts_topic = ''OOP Concepts'', ts_duration = 75, ts_order = 4\<rparr>,
         \<lparr>ts_topic = ''Libraries & Projects'', ts_duration = 90, ts_order = 5\<rparr>]),
      (''english'',
        [\<lparr>ts_topic = ''Vocabulary Building'', ts_duration = 30, ts_order = 1\<rparr>,
         \<lparr>ts_topic = ''Grammar Practice'', ts_duration = 45, ts_order = 2\<rparr>,
         \<lparr>ts_topic = ''Listening Skills'', ts_duration = 40, ts_order = 3\<rparr>,
         \<lparr>ts_topic = ''Speaking Practice'', ts_duration = 50, ts_order = 4\<rparr>,
         \<lparr>ts_topic = ''Writing Exercise'', ts_duration = 60, ts_order = 5\<rparr>]),
      (''ielts'',
        [\<lparr>ts_topic = ''Reading Strategies'', ts_duration = 60, ts_order = 1\<rparr>,
         \<lparr>ts_topic = ''Listening Practice'', ts_duration = 45, ts_order = 2\<rparr>,
         \<lparr>ts_topic = ''Writing Task 1'', ts_duration = 50, ts_order = 3\<rparr>,
         \<lparr>ts_topic = ''Writing Task 2'', ts_duration = 70, ts_order = 4\<rparr>,
         \<lparr>ts_topic = ''Speaking Mock Test'', ts_duration = 40, ts_order = 5\<rparr>]),
      (''default'', defaultSessions)]"

subsection \<open>Fixed commitments, busy blocks and free slots\<close>

text \<open>An entry of the fixed schedule; \<open>fi_type\<close> is \<open>None\<close> when the entry has no \<^verbatim>\<open>type\<close>.\<close>

record fixedItem =
  fi_title :: string
  fi_type :: "string option"
  fi_startTime :: rat
  fi_endTime :: rat

record block =
  b_title :: string
  b_type :: string
  b_start :: rat
  b_end :: rat
  b_originalStart :: rat
  b_originalEnd :: rat
  b_isAutoGenerated :: bool

text \<open>
  A free slot. \<open>sl_beforeActivity\<close> and \<open>sl_afterActivity\<close> are \<open>None\<close> for \<^verbatim>\<open>null\<close> and for a
  missing property; \<open>sl_score\<close> is set on the copies that \<^verbatim>\<open>findBestSlotForGoal\<close> makes.
\<close>

record slot =
  sl_start :: rat
  sl_end :: rat
  sl_duration :: rat
  sl_startTime :: rat
  sl_endTime :: rat
  sl_beforeActivity :: "string option"
  sl_afterActivity :: "string option"
  sl_score :: "jsnum option"

text \<open>\<^verbatim>\<open>item.type || 'default'\<close>\<close>

definition typeOrDefault :: "string option \<Rightarrow> string" where
  "typeOrDefault t = (case t of None \<Rightarrow> ''default'' | Some x \<Rightarrow> if x = [] then ''default'' else x)"

definition getBufferForActivity :: "fixedItem \<Rightarrow> bufferConfig" where
  "getBufferForActivity activity =
     (let title = toLowerCase (fi_title activity);
          type = typeOrDefault (fi_type activity)
      in if str_includes title [CHR 0xC4, CHR 0x83, CHR ''n''] \<or> str_includes title ''meal'' \<or>
            str_includes title ''lunch'' \<or> str_includes title ''dinner'' \<or>
            str_includes title ''breakfast'' \<or>
            str_includes title [CHR ''c'', CHR 0xC6, CHR 0xA1, CHR ''m'']
         then BUFFER_CONFIG Meal
         else if str_includes title ''work'' \<or>
            str_includes title [CHR ''l'', CHR 0xC3, CHR 0xA0, CHR ''m'', CHR '' '',
                                CHR ''v'', CHR ''i'', CHR 0xE1, CHR 0xBB, CHR 0x87, CHR ''c''] \<or>
            str_includes title [CHR ''h'', CHR 0xE1, CHR 0xBB, CHR 0x8D, CHR ''c''] \<or>
            str_includes title ''study'' \<or> type = ''work'' \<or> type = ''class''
         then BUFFER_CONFIG Work
         else BUFFER_CONFIG Default)"

record mealTime =
  m_name :: string
  m_start :: rat
  m_end :: rat

definition mealTimes :: "mealTime list" where
  "mealTimes =
     [\<lparr>m_name = [CHR ''B'', CHR 0xE1, CHR 0xBB, CHR 0xAF, CHR ''a'', CHR '' '',
                  CHR ''s'', CHR 0xC3, CHR 0xA1, CHR ''n'', CHR ''g''],
        m_start = 7 * 60, m_end = 8 * 60\<rparr>,
      \<lparr>m_name = [CHR ''B'', CHR 0xE1, CHR 0xBB, CHR 0xAF, CHR ''a'', CHR '' '',
                  CHR ''t'', CHR ''r'', CHR 0xC6, CHR 0xB0, CHR ''a''],
        m_start = 12 * 60, m_end = 13 * 60\<rparr>,
      \<lparr>m_name = [CHR ''B'', CHR 0xE1, CHR 0xBB, CHR 0xAF, CHR ''a'', CHR '' '',
                  CHR ''t'', CHR 0xE1, CHR 0xBB, CHR 0x91, CHR ''i''],
        m_start = 18 * 60, m_end = 19 * 60\<rparr>]"

text \<open>The block that \<^verbatim>\<open>addMealBreaks\<close> pushes for a meal window.\<close>

definition mealBlock :: "mealTime \<Rightarrow> block" where
  "mealBlock meal =
     \<lparr>b_title = m_name meal, b_type = ''meal'',
      b_start = m_start meal - 15, b_end = m_end meal + 15,
      b_originalStart = m_start meal, b_originalEnd = m_end meal,
      b_isAutoGenerated = True\<rparr>"

text \<open>
  The loop of \<^verbatim>\<open>addMealBreaks\<close> over the meal windows: \<open>blocks\<close> is the argument, which the
  conflict test reads, and \<open>result\<close> the copy that grows.
\<close>

fun addMealLoop :: "block list \<Rightarrow> mealTime list \<Rightarrow> block list \<Rightarrow> block list" where
  "addMealLoop blocks [] result = result"
| "addMealLoop blocks (meal # rest) result =
     (let hasConflict =
            list_ex (\<lambda>block. b_originalStart block < m_end meal \<and> b_originalEnd block > m_start meal)
              blocks
      in if \<not> hasConflict then addMealLoop blocks rest (result @ [mealBlock meal])
         else addMealLoop blocks rest result)"

definition addMealBreaks :: "block list \<Rightarrow> block list" where
  "addMealBreaks blocks = addMealLoop blocks mealTimes blocks"

definition findPreviousActivity :: "block list \<Rightarrow> block \<Rightarrow> string option" where
  "findPreviousActivity blocks currentBlock =
     (let previousBlocks = filter (\<lambda>b. b_end b \<le> b_start currentBlock) blocks
      in if previousBlocks = [] then None
         else Some (b_title (foldl (\<lambda>prev current. if b_end current > b_end prev then current else prev)
                               (hd previousBlocks) (tl previousBlocks))))"

text \<open>The buffered block of a fixed commitment (the \<^verbatim>\<open>map\<close> of \<^verbatim>\<open>findIntelligentFreeSlots\<close>).\<close>

definition bufferedBlock :: "fixedItem \<Rightarrow> block" where
  "bufferedBlock item =
     (let bufferConfig = getBufferForActivity item
      in \<lparr>b_title = fi_title item, b_type = typeOrDefault (fi_type item),
          b_start = max 0 (fi_startTime item - before bufferConfig),
          b_end = min 1439 (fi_endTime item + after bufferConfig),
          b_originalStart = fi_startTime item, b_originalEnd = fi_endTime item,
          b_isAutoGenerated = False\<rparr>)"

text \<open>
  The gap loop of \<^verbatim>\<open>findIntelligentFreeSlots\<close>: \<open>mealsAdded\<close> is the whole sorted array,
  the second argument what is left of it, and the result the final \<^verbatim>\<open>currentTime\<close> with the
  slots found.
\<close>

fun findGaps :: "block list \<Rightarrow> block list \<Rightarrow> rat \<Rightarrow> slot list \<Rightarrow> rat \<times> slot list" where
  "findGaps mealsAdded [] currentTime freeSlots = (currentTime, freeSlots)"
| "findGaps mealsAdded (block # rest) currentTime freeSlots =
     (let freeSlots' =
            (if currentTime < b_start block then
               let gapDuration = b_start block - currentTime
               in if gapDuration \<ge> 30 then
                    freeSlots @
                      [\<lparr>sl_start = currentTime, sl_end = b_start block, sl_duration = gapDuration,
                        sl_startTime = currentTime, sl_endTime = b_start block,
                        sl_beforeActivity = Some (b_title block),
                        sl_afterActivity = findPreviousActivity mealsAdded block,
                        sl_score = None\<rparr>]
                  else freeSlots
             else freeSlots)
      in findGaps mealsAdded rest (max currentTime (b_end block)) freeSlots')"

definition findIntelligentFreeSlots :: "fixedItem list \<Rightarrow> slot list" where
  "findIntelligentFreeSlots fixedSchedule =
     (let dayStart = 6 * 60;
          dayEnd = 23 * 60;
          bufferedBlocks = map bufferedBlock fixedSchedule;
          mealsAdded = sort_key b_start (addMealBreaks bufferedBlocks);
          (currentTime, freeSlots) = findGaps mealsAdded mealsAdded dayStart []
      in if currentTime < dayEnd then
           let finalDuration = dayEnd - currentTime
           in if finalDuration \<ge> 30 then
                freeSlots @
                  [\<lparr>sl_start = currentTime, sl_end = dayEnd, sl_duration = finalDuration,
                    sl_startTime = currentTime, sl_endTime = dayEnd,
                    sl_beforeActivity = Some ''End of day'', sl_afterActivity = None,
                    sl_score = None\<rparr>]
              else freeSlots
         else freeSlots)"

subsection \<open>Learning goals and generated sessions\<close>

record sessionLength =
  len_min :: rat
  len_max :: rat
  len_preferred :: rat

text \<open>
  The priority of a goal: \<^verbatim>\<open>high\<close>, \<^verbatim>\<open>medium\<close>, \<^verbatim>\<open>low\<close>, or, as \<open>OtherPriority\<close>, a value for
  which the lookup in the bonus table gives \<^verbatim>\<open>undefined\<close>, such as a missing priority. The
  name of a property that every object inherits (\<^verbatim>\<open>constructor\<close>, \<^verbatim>\<open>__proto__\<close>,
  \<^verbatim>\<open>toString\<close>, ...) is not a value of this type: for it the lookup gives a function or an
  object, and the score is no longer a number.
\<close>

datatype priority = High | Medium | Low | OtherPriority

record goal =
  g_id :: nat
  g_subject :: string
  g_targetHoursPerDay :: rat
  g_priority :: priority
  g_sessionLength :: sessionLength
  g_preferredTimeSlots :: "string list"
  g_category :: string
  g_color :: string
  g_icon :: string

text \<open>
  A generated session. The fields from \<open>it_sessionTopic\<close> on are set by the enhanced engine
  only and are \<open>None\<close> in the items of \<^verbatim>\<open>SchedulingEngine\<close>.
\<close>

record scheduleItem =
  it_learningGoalId :: nat
  it_subject :: string
  it_startTime :: rat
  it_endTime :: rat
  it_duration :: rat
  it_priority :: priority
  it_category :: string
  it_color :: string
  it_icon :: string
  it_sessionTopic :: "string option"
  it_sessionOrder :: "int option"
  it_contextBefore :: "string option"
  it_contextAfter :: "string option"
  it_suggestedBreak :: "rat option"

subsection \<open>Templates\<close>

text \<open>
  What \<^verbatim>\<open>getContentTemplate\<close> returns: a template of the table, or, for the two lower-case
  names that every object inherits (\<^verbatim>\<open>constructor\<close>, \<^verbatim>\<open>__proto__\<close>), a value without
  \<^verbatim>\<open>sessions\<close>, on which the allocator's \<^verbatim>\<open>template.sessions.length\<close> raises a TypeError.
\<close>

datatype template = Template "templateSession list" | Inherited

definition getContentTemplate :: "string \<Rightarrow> template" where
  "getContentTemplate subject =
     (let normalizedSubject = removeWhitespace (toLowerCase subject)
      in case map_of LEARNING_TEMPLATES normalizedSubject of
           Some sessions \<Rightarrow> Template sessions
         | None \<Rightarrow>
             if normalizedSubject = ''constructor'' \<or> normalizedSubject = ''__proto__''
             then Inherited
             else (case find (\<lambda>(key, sessions). str_includes normalizedSubject key \<or>
                                                  str_includes key normalizedSubject)
                          LEARNING_TEMPLATES of
                     Some (key, sessions) \<Rightarrow> Template sessions
                   | None \<Rightarrow> Template defaultSessions))"

subsection \<open>Scoring and selecting a slot\<close>

text \<open>\<^verbatim>\<open>dayjs(slot.startTime).hour()\<close> for a time given in minutes since the start of the day.\<close>

definition hourOf :: "rat \<Rightarrow> int" where
  "hourOf t = (\<lfloor>t\<rfloor> div 60) mod 24"

definition getTimeSlotCategory :: "int \<Rightarrow> string" where
  "getTimeSlotCategory hour =
     (if hour \<ge> 5 \<and> hour < 8 then ''early-morning''
      else if hour \<ge> 8 \<and> hour < 12 then ''morning''
      else if hour \<ge> 12 \<and> hour < 17 then ''afternoon''
      else if hour \<ge> 17 \<and> hour < 21 then ''evening''
      else ''night'')"

fun priorityBonus :: "priority \<Rightarrow> rat" where
  "priorityBonus High = 30"
| "priorityBonus Medium = 20"
| "priorityBonus Low = 10"
| "priorityBonus OtherPriority = 0"

text \<open>\<^verbatim>\<open>activity && activity.includes('meal')\<close>\<close>

definition mentionsMeal :: "string option \<Rightarrow> bool" where
  "mentionsMeal activity = (case activity of None \<Rightarrow> False | Some a \<Rightarrow> str_includes a ''meal'')"

text \<open>\<^verbatim>\<open>SchedulingEngine.scoreSlotForGoal\<close>\<close>

definition scoreSlotForGoal :: "goal \<Rightarrow> slot \<Rightarrow> jsnum" where
  "scoreSlotForGoal goal slot =
     (let score0 = js_scale (js_div (min (sl_duration slot) (len_preferred (g_sessionLength goal)))
                               (len_preferred (g_sessionLength goal))) 100;
          hour = hourOf (sl_startTime slot);
          timeSlot = getTimeSlotCategory hour;
          score1 = (if timeSlot \<in> set (g_preferredTimeSlots goal) then js_add score0 50 else score0)
      in js_add score1 (priorityBonus (g_priority goal)))"

text \<open>\<^verbatim>\<open>EnhancedSchedulingEngine.scoreSlotForGoalWithContext\<close>\<close>

definition scoreSlotForGoalWithContext :: "goal \<Rightarrow> slot \<Rightarrow> jsnum" where
  "scoreSlotForGoalWithContext goal slot =
     (let score0 = js_scale (js_div (min (sl_duration slot) (len_preferred (g_sessionLength goal)))
                               (len_preferred (g_sessionLength goal))) 100;
          hour = hourOf (sl_startTime slot);
          timeSlot = getTimeSlotCategory hour;
          score1 = (if timeSlot \<in> set (g_preferredTimeSlots goal) then js_add score0 50 else score0);
          score2 = js_add score1 (priorityBonus (g_priority goal));
          score3 = (if mentionsMeal (sl_afterActivity slot) then js_add score2 20 else score2)
      in if mentionsMeal (sl_beforeActivity slot) then js_add score3 (- 10) else score3)"

text \<open>
  Slot objects live in a store, a list indexed by reference, and the working pool
  \<^verbatim>\<open>availableSlots\<close> is a list of references: \<^verbatim>\<open>indexOf\<close> and the in-place update of
  \<^verbatim>\<open>updateAvailableSlot\<close> depend on the identity of the objects.

  \<^verbatim>\<open>findBestSlotForGoal\<close> has the same body in both engines, up to the scoring function:
  \<^verbatim>\<open>filter\<close> keeps references, \<^verbatim>\<open>map\<close> with the spread \<^verbatim>\<open>{...slot, score}\<close> allocates one new
  object for each suitable slot, and \<^verbatim>\<open>reduce\<close> without an initial value returns one of the
  new objects. The result is the reference returned (\<open>None\<close> for \<^verbatim>\<open>null\<close>) and the store.
\<close>

definition findBestSlotWith ::
  "(goal \<Rightarrow> slot \<Rightarrow> jsnum) \<Rightarrow> goal \<Rightarrow> nat list \<Rightarrow> rat \<Rightarrow> slot list \<Rightarrow> nat option \<times> slot list" where
  "findBestSlotWith scoreFn goal availableSlots remainingMinutes store =
     (let suitableSlots =
            filter (\<lambda>r. sl_duration (store ! r) \<ge> len_min (g_sessionLength goal)) availableSlots
      in if suitableSlots = [] then (None, store)
         else
           let store' = store @ map (\<lambda>r. (store ! r)\<lparr>sl_score := Some (scoreFn goal (store ! r))\<rparr>)
                                    suitableSlots;
               scoredSlots = [length store ..< length store + length suitableSlots]
           in (Some (foldl (\<lambda>best current.
                              if score_gt (sl_score (store' ! current)) (sl_score (store' ! best))
                              then current else best)
                       (hd scoredSlots) (tl scoredSlots)),
               store'))"

definition findBestSlotForGoal ::
  "goal \<Rightarrow> nat list \<Rightarrow> rat \<Rightarrow> slot list \<Rightarrow> nat option \<times> slot list" where
  "findBestSlotForGoal = findBestSlotWith scoreSlotForGoalWithContext"

definition getSuggestedBreak :: "rat \<Rightarrow> rat" where
  "getSuggestedBreak sessionDuration =
     (if sessionDuration \<ge> 90 then 15 else if sessionDuration \<ge> 60 then 10 else 5)"

text \<open>
  \<^verbatim>\<open>updateAvailableSlot\<close>, the same in both engines: \<open>usedSlot\<close> is a reference, looked up in
  the pool by identity.
\<close>

definition updateAvailableSlot ::
  "nat list \<Rightarrow> slot list \<Rightarrow> nat \<Rightarrow> rat \<Rightarrow> nat list \<times> slot list" where
  "updateAvailableSlot availableSlots store usedSlot usedDuration =
     (case indexOf availableSlots usedSlot of
        None \<Rightarrow> (availableSlots, store)
      | Some index \<Rightarrow>
          let remainingDuration = sl_duration (store ! usedSlot) - usedDuration
          in if remainingDuration \<ge> 30 then
               (availableSlots,
                store[usedSlot := (store ! usedSlot)
                   \<lparr>sl_duration := remainingDuration,
                    sl_start := sl_start (store ! usedSlot) + usedDuration,
                    sl_startTime := sl_startTime (store ! usedSlot) + usedDuration\<rparr>])
             else (take index availableSlots @ drop (Suc index) availableSlots, store))"

subsection \<open>The allocator of the enhanced engine\<close>

datatype error = TypeError

record allocState =
  generatedSchedule :: "scheduleItem list"
  availableSlots :: "nat list"
  store :: "slot list"

text \<open>
  The \<^verbatim>\<open>while\<close> loop of \<^verbatim>\<open>allocateIntelligentLearningTime\<close> for one goal, with the loop
  variables \<open>remainingMinutes\<close> and \<open>sessionIndex\<close>. The third conjunct of the loop condition
  reads \<^verbatim>\<open>template.sessions.length\<close> and is reached only when the first two hold.
\<close>

function allocateGoalSessions ::
  "goal \<Rightarrow> template \<Rightarrow> rat \<Rightarrow> nat \<Rightarrow> allocState \<Rightarrow> error + allocState" where
  "allocateGoalSessions goal template remainingMinutes sessionIndex st =
     (if remainingMinutes > 0 \<and> availableSlots st \<noteq> [] then
        (case template of
           Inherited \<Rightarrow> Inl TypeError
         | Template sessions \<Rightarrow>
             if sessionIndex < length sessions then
               (case findBestSlotForGoal goal (availableSlots st) remainingMinutes (store st) of
                  (None, store1) \<Rightarrow> Inr (st\<lparr>store := store1\<rparr>)
                | (Some bestSlot, store1) \<Rightarrow>
                    let currentSession = sessions ! sessionIndex;
                        sessionDuration =
                          min (ts_duration currentSession)
                            (min remainingMinutes
                               (min (sl_duration (store1 ! bestSlot))
                                    (len_max (g_sessionLength goal))))
                    in if sessionDuration \<ge> len_min (g_sessionLength goal) then
                         let scheduleItem =
                               \<lparr>it_learningGoalId = g_id goal,
                                it_subject = g_subject goal,
                                it_startTime = sl_startTime (store1 ! bestSlot),
                                it_endTime = sl_startTime (store1 ! bestSlot) + sessionDuration,
                                it_duration = sessionDuration,
                                it_priority = g_priority goal,
                                it_category = g_category goal,
                                it_color = g_color goal,
                                it_icon = g_icon goal,
                                it_sessionTopic = Some (ts_topic currentSession),
                                it_sessionOrder = Some (ts_order currentSession),
                                it_contextBefore = sl_afterActivity (store1 ! bestSlot),
                                it_contextAfter = sl_beforeActivity (store1 ! bestSlot),
                                it_suggestedBreak = Some (getSuggestedBreak sessionDuration)\<rparr>;
                             (availableSlots2, store2) =
                               updateAvailableSlot (availableSlots st) store1 bestSlot sessionDuration
                         in allocateGoalSessions goal template
                              (remainingMinutes - sessionDuration) (sessionIndex + 1)
                              \<lparr>generatedSchedule = generatedSchedule st @ [scheduleItem],
                               availableSlots = availableSlots2, store = store2\<rparr>
                       else Inr (st\<lparr>store := store1\<rparr>))
             else Inr st)
      else Inr st)"
  by pat_completeness auto
termination
  by (relation "measure (\<lambda>(goal, template, remainingMinutes, sessionIndex, st).
        (case template of Inherited \<Rightarrow> 0 | Template sessions \<Rightarrow> length sessions - sessionIndex))")
     auto

declare allocateGoalSessions.simps [simp del]

text \<open>The \<^verbatim>\<open>for\<close> loop over the goals.\<close>

fun allocateGoals :: "goal list \<Rightarrow> allocState \<Rightarrow> error + allocState" where
  "allocateGoals [] st = Inr st"
| "allocateGoals (goal # rest) st =
     (let targetMinutes = g_targetHoursPerDay goal * 60
      in case allocateGoalSessions goal (getContentTemplate (g_subject goal)) targetMinutes 0 st of
           Inl e \<Rightarrow> Inl e
         | Inr st' \<Rightarrow> allocateGoals rest st')"

text \<open>
  The state in which the loops start: \<^verbatim>\<open>[...freeSlots]\<close> copies the array, not the slot
  objects, so the store holds the given slots and the pool refers to them in order.
\<close>

definition initialState :: "slot list \<Rightarrow> allocState" where
  "initialState freeSlots =
     \<lparr>generatedSchedule = [], availableSlots = [0 ..< length freeSlots], store = freeSlots\<rparr>"

text \<open>\<^verbatim>\<open>generatedSchedule.sort((a, b) => a.startTime - b.startTime)\<close> is a stable sort.\<close>

definition allocateIntelligentLearningTime :: "goal list \<Rightarrow> slot list \<Rightarrow> error + scheduleItem list" where
  "allocateIntelligentLearningTime learningGoals freeSlots =
     (case allocateGoals learningGoals (initialState freeSlots) of
        Inl e \<Rightarrow> Inl e
      | Inr st \<Rightarrow> Inr (sort_key it_startTime (generatedSchedule st)))"

text \<open>
  Steps 3 and 4 of \<^verbatim>\<open>generateDailySchedule\<close>, between reading the fixed schedule and the
  goals and saving the result.
\<close>

definition dailySchedule :: "fixedItem list \<Rightarrow> goal list \<Rightarrow> error + scheduleItem list" where
  "dailySchedule fixedSchedule learningGoals =
     allocateIntelligentLearningTime learningGoals (findIntelligentFreeSlots fixedSchedule)"

section \<open>SchedulingEngine\<close>

definition SE_findBestSlotForGoal ::
  "goal \<Rightarrow> nat list \<Rightarrow> rat \<Rightarrow> slot list \<Rightarrow> nat option \<times> slot list" where
  "SE_findBestSlotForGoal = findBestSlotWith scoreSlotForGoal"

definition calculateOptimalSessionDuration :: "goal \<Rightarrow> rat \<Rightarrow> rat \<Rightarrow> rat" where
  "calculateOptimalSessionDuration goal slotDuration remainingMinutes =
     (let d0 = len_preferred (g_sessionLength goal);
          d1 = min d0 remainingMinutes;
          d2 = min d1 slotDuration;
          d3 = max d2 (len_min (g_sessionLength goal));
          d4 = min d3 (len_max (g_sessionLength goal))
      in d4)"

text \<open>
  The \<^verbatim>\<open>while\<close> loop of \<^verbatim>\<open>allocateLearningTime\<close> for one goal. Nothing bounds the number
  of its rounds, so the result is \<open>None\<close> when the loop does not end.
\<close>

partial_function (option) allocateGoalTime :: "goal \<Rightarrow> rat \<Rightarrow> allocState \<Rightarrow> allocState option" where
  "allocateGoalTime goal remainingMinutes st =
     (if remainingMinutes > 0 \<and> availableSlots st \<noteq> [] then
        (case SE_findBestSlotForGoal goal (availableSlots st) remainingMinutes (store st) of
           (None, store1) \<Rightarrow> Some (st\<lparr>store := store1\<rparr>)
         | (Some bestSlot, store1) \<Rightarrow>
             let sessionDuration =
                   calculateOptimalSessionDuration goal (sl_duration (store1 ! bestSlot))
                     remainingMinutes;
                 scheduleItem =
                   \<lparr>it_learningGoalId = g_id goal,
                    it_subject = g_subject goal,
                    it_startTime = sl_startTime (store1 ! bestSlot),
                    it_endTime = sl_startTime (store1 ! bestSlot) + sessionDuration,
                    it_duration = sessionDuration,
                    it_priority = g_priority goal,
                    it_category = g_category goal,
                    it_color = g_color goal,
                    it_icon = g_icon goal,
                    it_sessionTopic = None, it_sessionOrder = None,
                    it_contextBefore = None, it_contextAfter = None,
                    it_suggestedBreak = None\<rparr>;
                 (availableSlots2, store2) =
                   updateAvailableSlot (availableSlots st) store1 bestSlot sessionDuration
             in allocateGoalTime goal (remainingMinutes - sessionDuration)
                  \<lparr>generatedSchedule = generatedSchedule st @ [scheduleItem],
                   availableSlots = availableSlots2, store = store2\<rparr>)
      else Some st)"

declare allocateGoalTime.simps [code]

fun allocateTimeGoals :: "goal list \<Rightarrow> allocState \<Rightarrow> allocState option" where
  "allocateTimeGoals [] st = Some st"
| "allocateTimeGoals (goal # rest) st =
     (case allocateGoalTime goal (g_targetHoursPerDay goal * 60) st of
        None \<Rightarrow> None
      | Some st' \<Rightarrow> allocateTimeGoals rest st')"

definition allocateLearningTime :: "goal list \<Rightarrow> slot list \<Rightarrow> scheduleItem list option" where
  "allocateLearningTime learningGoals freeSlots =
     (case allocateTimeGoals learningGoals (initialState freeSlots) of
        None \<Rightarrow> None
      | Some st \<Rightarrow> Some (sort_key it_startTime (generatedSchedule st)))"

section \<open>AutoTaskGenerator\<close>

subsection \<open>STUDY_CONFIG\<close>

record window =
  w_start :: int
  w_end :: int

record studyConfig =
  defaultSessionLength :: int
  breakDuration :: int
  maxSessionsPerDay :: int
  minSessionsPerDay :: int
  minSessionLength :: int
  maxSessionLength :: int
  maxContinuousTime :: int
  prepBufferMin :: int
  wrapBufferMin :: int
  macroBreakMin :: int
  macroBreakAfterSessions :: int
  protectedWindows :: "window list"

definition STUDY_CONFIG :: studyConfig where
  "STUDY_CONFIG = \<lparr>
     defaultSessionLength = 45,
     breakDuration = 10,
     maxSessionsPerDay = 6,
     minSessionsPerDay = 1,
     minSessionLength = 30,
     maxSessionLength = 90,
     maxContinuousTime = 120,
     prepBufferMin = 5,
     wrapBufferMin = 5,
     macroBreakMin = 20,
     macroBreakAfterSessions = 2,
     protectedWindows = [\<lparr>w_start = 12 * 60, w_end = 13 * 60\<rparr>,
                         \<lparr>w_start = 18 * 60, w_end = 19 * 60\<rparr>] \<rparr>"

subsection \<open>buildSessions and buildBalancedSessions\<close>

record session =
  ss_duration :: int
  ss_order :: int
  ss_needsBreak :: bool
  ss_breakDuration :: int

text \<open>\<^verbatim>\<open>buildSessions(count, defaultLen, minLen)\<close>: the loop index runs over \<open>0 .. count - 1\<close>.\<close>

definition buildSessions :: "int \<Rightarrow> int \<Rightarrow> int \<Rightarrow> session list" where
  "buildSessions cnt defaultLen minLen =
     filter (\<lambda>s. ss_duration s \<ge> minLen)
       (map (\<lambda>i. \<lparr>ss_duration = defaultLen, ss_order = i + 1,
                   ss_needsBreak = (i < cnt - 1),
                   ss_breakDuration = breakDuration STUDY_CONFIG\<rparr>)
            [0..cnt - 1])"

text \<open>\<^verbatim>\<open>Math.round\<close> rounds halves upwards.\<close>

definition js_round :: "rat \<Rightarrow> int" where
  "js_round x = \<lfloor>x + 1 / 2\<rfloor>"

text \<open>
  The \<^verbatim>\<open>for\<close> loop of \<^verbatim>\<open>buildBalancedSessions\<close> that hands out the remainder in steps of
  five minutes and clamps every duration; \<open>i\<close> is the loop index, \<open>remainder\<close> and
  \<open>sessions\<close> are the variables the loop updates.
\<close>

function fillSessions ::
  "studyConfig \<Rightarrow> int \<Rightarrow> int \<Rightarrow> int \<Rightarrow> int \<Rightarrow> session list \<Rightarrow> session list" where
  "fillSessions cfg base cnt i remainder sessions =
     (if i < cnt then
        let dur0 = base;
            dur1 = (if remainder \<ge> 5 then dur0 + 5 else dur0);
            remainder' = (if remainder \<ge> 5 then remainder - 5 else remainder);
            dur = max (minSessionLength cfg) (min (maxSessionLength cfg) dur1)
        in fillSessions cfg base cnt (i + 1) remainder'
             (sessions @ [\<lparr>ss_duration = dur, ss_order = i + 1,
                            ss_needsBreak = (i < cnt - 1),
                            ss_breakDuration = breakDuration cfg\<rparr>])
      else sessions)"
  by pat_completeness auto
termination
  by (relation "measure (\<lambda>(cfg, base, cnt, i, remainder, sessions). nat (cnt - i))") auto

declare fillSessions.simps [simp del]

text \<open>
  The reconciliation loop: \<^verbatim>\<open>while (sum !== targetMinutes && idx < sessions.length * 10)\<close>.
\<close>

function adjustSessions ::
  "studyConfig \<Rightarrow> int \<Rightarrow> int \<Rightarrow> session list \<Rightarrow> int \<Rightarrow> nat \<Rightarrow> session list" where
  "adjustSessions cfg targetMinutes step sessions tot idx =
     (if tot \<noteq> targetMinutes \<and> idx < length sessions * 10 then
        let i = idx mod length sessions;
            next = ss_duration (sessions ! i) + step
        in if next \<ge> minSessionLength cfg \<and> next \<le> maxSessionLength cfg
           then adjustSessions cfg targetMinutes step
                  (sessions[i := (sessions ! i)\<lparr>ss_duration := next\<rparr>]) (tot + step) (idx + 1)
           else adjustSessions cfg targetMinutes step sessions tot (idx + 1)
      else sessions)"
  by pat_completeness auto
termination
  by (relation "measure (\<lambda>(cfg, t, step, sessions, tot, idx). length sessions * 10 - idx)") auto

declare adjustSessions.simps [simp del]

definition buildBalancedSessions :: "int \<Rightarrow> int \<Rightarrow> studyConfig \<Rightarrow> session list" where
  "buildBalancedSessions targetMinutes cnt cfg =
     (if targetMinutes \<le> 0 then
        buildSessions (max 1 (if cnt = 0 then 1 else cnt)) (defaultSessionLength cfg) 15
      else if cnt \<le> 1 then
        [\<lparr>ss_duration = max 15 (min (maxSessionLength cfg)
                                    (js_round (of_int targetMinutes / 5) * 5)),
          ss_order = 1, ss_needsBreak = False, ss_breakDuration = breakDuration cfg\<rparr>]
      else
        let base = \<lfloor>(of_int targetMinutes :: rat) / of_int cnt / 5\<rfloor> * 5;
            remainder = max 0 (targetMinutes - base * cnt);
            sessions = fillSessions cfg base cnt 0 remainder [];
            tot = sum_list (map ss_duration sessions)
        in if tot \<noteq> targetMinutes then
             adjustSessions cfg targetMinutes (if tot > targetMinutes then -5 else 5) sessions tot 0
           else sessions)"

subsection \<open>findFreeSlots: merging the busy intervals\<close>

record interval =
  iv_start :: int
  iv_end :: int

text \<open>
  The merge loop of \<^verbatim>\<open>findFreeSlots\<close>; \<open>merged\<close> is the array the loop builds, whose last
  element is extended in place when the next interval starts no later than it ends.
\<close>

fun mergeLoop :: "interval list \<Rightarrow> interval list \<Rightarrow> interval list" where
  "mergeLoop merged [] = merged"
| "mergeLoop merged (interval # rest) =
     (if merged = [] then mergeLoop (merged @ [interval]) rest
      else let lst = last merged in
        if iv_start interval \<le> iv_end lst
        then mergeLoop (butlast merged @ [lst\<lparr>iv_end := max (iv_end lst) (iv_end interval)\<rparr>]) rest
        else mergeLoop (merged @ [interval]) rest)"

text \<open>
  \<^verbatim>\<open>busyIntervals.sort((a, b) => a.start - b.start)\<close> is a stable sort by start, followed
  by the merge loop.
\<close>

definition mergeBusy :: "interval list \<Rightarrow> interval list" where
  "mergeBusy busyIntervals = mergeLoop [] (sort_key iv_start busyIntervals)"

subsection \<open>findFreeSlots: the free slots of a day\<close>

record freeSlot =
  fs_start :: int
  fs_end :: int
  fs_duration :: int



subsection \<open>allocateSimpleSessions\<close>

text \<open>
  A generated task is kept as its kind and its time range in minutes; the source stores the
  range as \<^verbatim>\<open>minutesToTime\<close> of these minutes. The kinds stand for the titles and notes:
  \<^item> \<open>MacroBreakAfterSessions\<close>: the long break pushed when \<^verbatim>\<open>sessionsSinceMacro\<close> has reached
    \<^verbatim>\<open>macroBreakAfterSessions\<close>;
  \<^item> \<open>MacroBreakBeforeSession\<close>: the long break pushed when the session would exceed
    \<^verbatim>\<open>maxContinuousTime\<close>;
  \<^item> \<open>StudyTask order\<close>: the study task of the session with that \<^verbatim>\<open>order\<close>;
  \<^item> \<open>MicroBreak\<close>: the short break after a session.
  The user, the weekday and the goal are the same in every task of a call and are left out.
\<close>

datatype taskKind = MacroBreakAfterSessions | MacroBreakBeforeSession | StudyTask int | MicroBreak

record task =
  tk_kind :: taskKind
  tk_start :: int
  tk_end :: int

record simpleState =
  generatedTasks :: "task list"
  sessionIndex :: nat
  continuousFocus :: int
  sessionsSinceMacro :: int

text \<open>
  The \<^verbatim>\<open>for\<close> loop over the slots sorted by start: \<^verbatim>\<open>break\<close> returns the state, and
  \<^verbatim>\<open>continue\<close> goes on with the next slot, keeping a long break that was already pushed.
\<close>

fun placeSessions :: "session list \<Rightarrow> freeSlot list \<Rightarrow> simpleState \<Rightarrow> simpleState" where
  "placeSessions sessions [] st = st"
| "placeSessions sessions (slot # rest) st =
     (if sessionIndex st \<ge> length sessions then st
      else
        let cfg = STUDY_CONFIG;
            slotEnd = fs_end slot;
            session = sessions ! sessionIndex st;
            macroFirst = (sessionsSinceMacro st \<ge> macroBreakAfterSessions cfg \<and>
                          fs_start slot + macroBreakMin cfg \<le> slotEnd);
            st1 = (if macroFirst then
                     st\<lparr>generatedTasks := generatedTasks st @
                          [\<lparr>tk_kind = MacroBreakAfterSessions, tk_start = fs_start slot,
                            tk_end = fs_start slot + macroBreakMin cfg\<rparr>],
                        continuousFocus := 0, sessionsSinceMacro := 0\<rparr>
                   else st);
            currentSlotTime1 = (if macroFirst then fs_start slot + macroBreakMin cfg else fs_start slot);
            needsMicroBreak = ss_needsBreak session;
            totalRequired = prepBufferMin cfg + ss_duration session + wrapBufferMin cfg +
                            (if needsMicroBreak then breakDuration cfg else 0)
        in if currentSlotTime1 + totalRequired > slotEnd then placeSessions sessions rest st1
           else
             let overCeiling = (continuousFocus st1 + ss_duration session > maxContinuousTime cfg)
             in if overCeiling \<and> \<not> (currentSlotTime1 + macroBreakMin cfg + totalRequired \<le> slotEnd)
                then placeSessions sessions rest st1
                else
                  let st2 = (if overCeiling then
                               st1\<lparr>generatedTasks := generatedTasks st1 @
                                     [\<lparr>tk_kind = MacroBreakBeforeSession, tk_start = currentSlotTime1,
                                       tk_end = currentSlotTime1 + macroBreakMin cfg\<rparr>],
                                   continuousFocus := 0, sessionsSinceMacro := 0\<rparr>
                             else st1);
                      currentSlotTime2 = (if overCeiling then currentSlotTime1 + macroBreakMin cfg
                                          else currentSlotTime1);
                      studyStart = currentSlotTime2 + prepBufferMin cfg;
                      studyEnd = studyStart + ss_duration session;
                      studyTask = \<lparr>tk_kind = StudyTask (ss_order session), tk_start = studyStart,
                                   tk_end = studyEnd\<rparr>;
                      afterStudy = studyEnd + wrapBufferMin cfg
                  in if needsMicroBreak \<and> afterStudy + breakDuration cfg \<le> slotEnd then
                       placeSessions sessions rest
                         \<lparr>generatedTasks = generatedTasks st2 @
                            [studyTask,
                             \<lparr>tk_kind = MicroBreak, tk_start = afterStudy,
                               tk_end = afterStudy + breakDuration cfg\<rparr>],
                          sessionIndex = sessionIndex st + 1,
                          continuousFocus = 0,
                          sessionsSinceMacro = sessionsSinceMacro st2 + 1\<rparr>
                     else
                       placeSessions sessions rest
                         \<lparr>generatedTasks = generatedTasks st2 @ [studyTask],
                          sessionIndex = sessionIndex st + 1,
                          continuousFocus = continuousFocus st2 + ss_duration session,
                          sessionsSinceMacro = sessionsSinceMacro st2 + 1\<rparr>)"

declare placeSessions.simps(2) [simp del]

definition allocateSimpleSessions :: "session list \<Rightarrow> freeSlot list \<Rightarrow> task list" where
  "allocateSimpleSessions sessions freeSlots =
     generatedTasks
       (placeSessions sessions (sort_key fs_start freeSlots)
          \<lparr>generatedTasks = [], sessionIndex = 0, continuousFocus = 0, sessionsSinceMacro = 0\<rparr>)"

section \<open>The scoring rule in the words of the specification\<close>








section \<open>Notions used in the statements\<close>

text \<open>Every reference of the pool points into the store.\<close>

definition poolValid :: "allocState \<Rightarrow> bool" where
  "poolValid st = (\<forall>r \<in> set (availableSlots st). r < length (store st))"

text \<open>The slots the pool refers to, in the order of the pool.\<close>

definition poolSlots :: "allocState \<Rightarrow> slot list" where
  "poolSlots st = map (\<lambda>r. store st ! r) (availableSlots st)"

text \<open>The minutes a plan gives to a goal: the durations of the sessions that carry its id.\<close>

definition minutesFor :: "goal \<Rightarrow> scheduleItem list \<Rightarrow> rat" where
  "minutesFor g plan =
     sum_list (map it_duration (filter (\<lambda>s. it_learningGoalId s = g_id g) plan))"

text \<open>
  The sessions \<open>new\<close> that a goal list has produced: each belongs to a goal of the list and
  satisfies \<open>ok\<close> for it, and the minutes of each goal satisfy \<open>bound\<close> when the ids of the
  goals are distinct.
\<close>

definition sessionsOf ::
  "goal list \<Rightarrow> (goal \<Rightarrow> scheduleItem \<Rightarrow> bool) \<Rightarrow> (goal \<Rightarrow> rat \<Rightarrow> bool) \<Rightarrow> scheduleItem list \<Rightarrow> bool" where
  "sessionsOf gs ok bound new =
     ((\<forall>s \<in> set new. \<exists>g \<in> set gs. it_learningGoalId s = g_id g \<and> ok g s) \<and>
      (distinct (map g_id gs) \<longrightarrow> (\<forall>g \<in> set gs. bound g (minutesFor g new))))"

definition inRange :: "goal \<Rightarrow> scheduleItem \<Rightarrow> bool" where
  "inRange g s =
     (len_min (g_sessionLength g) \<le> it_duration s \<and> it_duration s \<le> len_max (g_sessionLength g))"

definition itemSpan :: "scheduleItem \<Rightarrow> rat \<times> rat" where
  "itemSpan s = (it_startTime s, it_endTime s)"

definition slotSpan :: "slot \<Rightarrow> rat \<times> rat" where
  "slotSpan s = (sl_start s, sl_end s)"

definition sessionSummary :: "scheduleItem \<Rightarrow> string option \<times> rat" where
  "sessionSummary s = (it_sessionTopic s, it_duration s)"

definition withinSpan :: "rat \<Rightarrow> rat \<Rightarrow> scheduleItem \<Rightarrow> bool" where
  "withinSpan lo hi s = (lo \<le> it_startTime s \<and> it_endTime s \<le> hi)"

text \<open>
  Two sessions of 90 minutes; \<open>b\<close> tells whether the first asks for a short break after it,
  as every session but the last of a stream of \<^verbatim>\<open>buildBalancedSessions\<close> does.
\<close>

definition twoSessions :: "bool \<Rightarrow> session list" where
  "twoSessions b =
     [\<lparr>ss_duration = 90, ss_order = 1, ss_needsBreak = b, ss_breakDuration = 10\<rparr>,
      \<lparr>ss_duration = 90, ss_order = 2, ss_needsBreak = False, ss_breakDuration = 10\<rparr>]"

text \<open>
  The states \<^verbatim>\<open>allocateSimpleSessions\<close> passes through on \<open>twoSessions b\<close>: nothing placed,
  the first session placed, both placed.
\<close>

definition twoProgress :: "bool \<Rightarrow> simpleState \<Rightarrow> bool" where
  "twoProgress b st =
     (sessionIndex st = 0 \<and> continuousFocus st = 0 \<and> sessionsSinceMacro st = 0 \<and>
        map tk_kind (generatedTasks st) = [] \<or>
      sessionIndex st = 1 \<and> continuousFocus st = (if b then 0 else 90) \<and>
        sessionsSinceMacro st = 1 \<and>
        map tk_kind (generatedTasks st) = (if b then [StudyTask 1, MicroBreak] else [StudyTask 1]) \<or>
      sessionIndex st = 2 \<and>
        map tk_kind (generatedTasks st) =
          (if b then [StudyTask 1, MicroBreak, StudyTask 2]
           else [StudyTask 1, MacroBreakBeforeSession, StudyTask 2]))"

subsection \<open>Inputs of the examples\<close>

text \<open>A single work commitment from 09:00 to 17:00.\<close>

definition workday :: "fixedItem list" where
  "workday = [\<lparr>fi_title = ''work'', fi_type = Some ''work'',
               fi_startTime = 9 * 60, fi_endTime = 17 * 60\<rparr>]"

text \<open>A lunch from 12:00 to 13:00 whose title is written in capital letters.\<close>

definition lunchInCapitals :: fixedItem where
  "lunchInCapitals =
     \<lparr>fi_title = [CHR 0xC4, CHR 0x82, CHR ''N'', CHR '' '', CHR ''T'', CHR ''R'', CHR 0xC6, CHR 0xAF,
                  CHR ''A''],
      fi_type = None, fi_startTime = 12 * 60, fi_endTime = 13 * 60\<rparr>"

text \<open>A commitment that ends when the lunch window starts.\<close>

definition gymBeforeLunch :: "fixedItem list" where
  "gymBeforeLunch = [\<lparr>fi_title = ''Gym'', fi_type = Some ''personal'',
                      fi_startTime = 11 * 60, fi_endTime = 12 * 60\<rparr>]"

definition lunchWindow :: mealTime where
  "lunchWindow =
     \<lparr>m_name = [CHR ''B'', CHR 0xE1, CHR 0xBB, CHR 0xAF, CHR ''a'', CHR '' '',
                 CHR ''t'', CHR ''r'', CHR 0xC6, CHR 0xB0, CHR ''a''],
      m_start = 12 * 60, m_end = 13 * 60\<rparr>"

definition reactGoal :: goal where
  "reactGoal =
     \<lparr>g_id = 1, g_subject = ''react'', g_targetHoursPerDay = 2, g_priority = Medium,
      g_sessionLength = \<lparr>len_min = 30, len_max = 90, len_preferred = 60\<rparr>,
      g_preferredTimeSlots = [], g_category = ''programming'', g_color = ''#3B82F6'',
      g_icon = ''code''\<rparr>"

definition englishGoal :: goal where
  "englishGoal =
     \<lparr>g_id = 2, g_subject = ''English'', g_targetHoursPerDay = 1, g_priority = High,
      g_sessionLength = \<lparr>len_min = 30, len_max = 60, len_preferred = 45\<rparr>,
      g_preferredTimeSlots = [''afternoon''], g_category = ''language'', g_color = ''#10B981'',
      g_icon = ''globe''\<rparr>"

text \<open>A goal that prefers the morning and whose sessions are half an hour long.\<close>

definition morningGoal :: goal where
  "morningGoal =
     \<lparr>g_id = 3, g_subject = ''english'', g_targetHoursPerDay = 1, g_priority = Medium,
      g_sessionLength = \<lparr>len_min = 30, len_max = 60, len_preferred = 30\<rparr>,
      g_preferredTimeSlots = [''morning''], g_category = ''language'', g_color = ''#10B981'',
      g_icon = ''globe''\<rparr>"

text \<open>A goal of an hour and a quarter a day.\<close>

definition pythonGoal :: goal where
  "pythonGoal =
     \<lparr>g_id = 4, g_subject = ''python'', g_targetHoursPerDay = 5 / 4, g_priority = Medium,
      g_sessionLength = \<lparr>len_min = 30, len_max = 90, len_preferred = 60\<rparr>,
      g_preferredTimeSlots = [], g_category = ''programming'', g_color = ''#F59E0B'',
      g_icon = ''code''\<rparr>"



text \<open>One free slot from 17:15 to 23:00.\<close>

definition eveningSlot :: "slot list" where
  "eveningSlot =
     [\<lparr>sl_start = 1035, sl_end = 1380, sl_duration = 345, sl_startTime = 1035,
       sl_endTime = 1380, sl_beforeActivity = Some ''End of day'', sl_afterActivity = None,
       sl_score = None\<rparr>]"



section \<open>Properties of AutoTaskGenerator\<close>

subsection \<open>Merging busy intervals\<close>

text \<open>
  The merge loop keeps two facts about the array it builds: every interval ends before the
  next one starts, and the starts are in order.
\<close>

lemma mergeLoop_separated:
  "successively (\<lambda>a b. iv_end a < iv_start b) merged \<Longrightarrow>
   sorted (map iv_start merged @ map iv_start xs) \<Longrightarrow>
   successively (\<lambda>a b. iv_end a < iv_start b) (mergeLoop merged xs) \<and>
   sorted (map iv_start (mergeLoop merged xs))"
proof (induction xs arbitrary: merged)
  case Nil
  then show ?case by simp
next
  case (Cons x xs)
  show ?case
  proof (cases "merged = []")
    case True
    with Cons.prems Cons.IH [of "[x]"] show ?thesis by simp
  next
    case False
    then obtain ys l where m: "merged = ys @ [l]"
      by (metis rev_exhaust)
    show ?thesis
    proof (cases "iv_start x \<le> iv_end l")
      case True
      let ?l = "l\<lparr>iv_end := max (iv_end l) (iv_end x)\<rparr>"
      have s1: "successively (\<lambda>a b. iv_end a < iv_start b) (ys @ [?l])"
        using Cons.prems(1) unfolding m by (auto simp: successively_append_iff)
      have s2: "sorted (map iv_start (ys @ [?l]) @ map iv_start xs)"
        using Cons.prems(2) unfolding m by (auto simp: sorted_append)
      from Cons.IH [OF s1 s2] True show ?thesis
        by (simp add: m)
    next
      case False
      have s1: "successively (\<lambda>a b. iv_end a < iv_start b) (merged @ [x])"
        using Cons.prems(1) False unfolding m by (auto simp: successively_append_iff)
      have s2: "sorted (map iv_start (merged @ [x]) @ map iv_start xs)"
        using Cons.prems(2) by simp
      from Cons.IH [OF s1 s2] False show ?thesis
        by (simp add: m)
    qed
  qed
qed

text \<open>On such a list the loop changes nothing.\<close>

lemma mergeLoop_fixed:
  "successively (\<lambda>a b. iv_end a < iv_start b) (merged @ xs) \<Longrightarrow> mergeLoop merged xs = merged @ xs"
proof (induction xs arbitrary: merged)
  case Nil
  then show ?case by simp
next
  case (Cons x xs)
  show ?case
  proof (cases "merged = []")
    case True
    with Cons.prems Cons.IH [of "[x]"] show ?thesis by simp
  next
    case False
    then obtain ys l where m: "merged = ys @ [l]"
      by (metis rev_exhaust)
    have "iv_end l < iv_start x"
      using Cons.prems unfolding m by (auto simp: successively_append_iff)
    moreover have "successively (\<lambda>a b. iv_end a < iv_start b) ((merged @ [x]) @ xs)"
      using Cons.prems by simp
    ultimately show ?thesis
      using Cons.IH [of "merged @ [x]"] by (simp add: m)
  qed
qed

text \<open>
  Claim C7. Merging busy intervals is idempotent: for every list of busy intervals, sorting
  and merging the merged list again gives the merged list back.
\<close>

theorem mergeBusy_idempotent: "mergeBusy (mergeBusy X) = mergeBusy X"
proof -
  have "successively (\<lambda>a b. iv_end a < iv_start b) (mergeBusy X) \<and>
        sorted (map iv_start (mergeBusy X))"
    unfolding mergeBusy_def by (rule mergeLoop_separated) simp_all
  then have "sort_key iv_start (mergeBusy X) = mergeBusy X"
    and "mergeLoop [] (mergeBusy X) = [] @ mergeBusy X"
    by (simp_all add: sort_key_id_if_sorted mergeLoop_fixed)
  then show ?thesis
    by (simp add: mergeBusy_def [of "mergeBusy X"])
qed

subsection \<open>The balanced partitioner\<close>

text \<open>
  When the base length and the base length plus five lie within the bounds, the loop that
  hands out the remainder never clamps: it appends \<open>count - i\<close> sessions that are multiples
  of five within the bounds, and their sum is the base length of each plus the part of the
  remainder that could be handed out.
\<close>

lemma fillSessions_balanced:
  assumes "minSessionLength cfg \<le> base" "base \<le> maxSessionLength cfg"
    "remainder \<ge> 5 \<longrightarrow> base + 5 \<le> maxSessionLength cfg"
    "0 \<le> remainder" "5 dvd remainder" "5 dvd base" "i \<le> cnt"
  shows "\<exists>new. fillSessions cfg base cnt i remainder sessions = sessions @ new \<and>
           length new = nat (cnt - i) \<and>
           sum_list (map ss_duration new) = base * (cnt - i) + min remainder (5 * (cnt - i)) \<and>
           (\<forall>s \<in> set new. 5 dvd ss_duration s \<and> minSessionLength cfg \<le> ss_duration s \<and>
               ss_duration s \<le> maxSessionLength cfg)"
  using assms
proof (induction cfg base cnt i remainder sessions rule: fillSessions.induct)
  case (1 cfg base cnt i remainder sessions)
  show ?case
  proof (cases "i < cnt")
    case False
    with "1.prems" show ?thesis by (simp add: fillSessions.simps)
  next
    case True
    define dur where "dur = (if remainder \<ge> 5 then base + 5 else base)"
    define remainder' where "remainder' = (if remainder \<ge> 5 then remainder - 5 else remainder)"
    define s where "s = \<lparr>ss_duration = dur, ss_order = i + 1, ss_needsBreak = (i < cnt - 1),
        ss_breakDuration = breakDuration cfg\<rparr>"
    have clamp: "max (minSessionLength cfg) (min (maxSessionLength cfg) dur) = dur"
      using "1.prems" by (auto simp: dur_def)
    have step: "fillSessions cfg base cnt i remainder sessions =
        fillSessions cfg base cnt (i + 1) remainder' (sessions @ [s])"
      using True clamp
      by (subst fillSessions.simps) (simp add: Let_def dur_def remainder'_def s_def)
    have r': "0 \<le> remainder'" "5 dvd remainder'"
      "remainder' \<ge> 5 \<longrightarrow> base + 5 \<le> maxSessionLength cfg"
      using "1.prems" by (auto simp: remainder'_def)
    have "\<exists>new. fillSessions cfg base cnt (i + 1) remainder' (sessions @ [s]) = (sessions @ [s]) @ new \<and>
           length new = nat (cnt - (i + 1)) \<and>
           sum_list (map ss_duration new) = base * (cnt - (i + 1)) + min remainder' (5 * (cnt - (i + 1))) \<and>
           (\<forall>s \<in> set new. 5 dvd ss_duration s \<and> minSessionLength cfg \<le> ss_duration s \<and>
               ss_duration s \<le> maxSessionLength cfg)"
      using "1.IH" [OF True refl refl refl refl, folded dur_def remainder'_def s_def]
        "1.prems"(1,2,6) r' True
      by (simp add: dur_def remainder'_def s_def clamp [unfolded dur_def])
    then obtain new where new:
      "fillSessions cfg base cnt (i + 1) remainder' (sessions @ [s]) = (sessions @ [s]) @ new"
      "length new = nat (cnt - (i + 1))"
      "sum_list (map ss_duration new) = base * (cnt - (i + 1)) + min remainder' (5 * (cnt - (i + 1)))"
      "\<forall>s \<in> set new. 5 dvd ss_duration s \<and> minSessionLength cfg \<le> ss_duration s \<and>
               ss_duration s \<le> maxSessionLength cfg"
      by blast
    have d5: "5 dvd dur" using "1.prems" by (auto simp: dur_def)
    have dr: "minSessionLength cfg \<le> dur" "dur \<le> maxSessionLength cfg"
      using "1.prems" by (auto simp: dur_def)
    have rem5: "remainder < 5 \<Longrightarrow> remainder = 0"
      using "1.prems"(4,5) by presburger
    have total: "dur + (base * (cnt - (i + 1)) + min remainder' (5 * (cnt - (i + 1)))) =
        base * (cnt - i) + min remainder (5 * (cnt - i))"
    proof (cases "remainder \<ge> 5")
      case True
      then show ?thesis
        by (simp add: dur_def remainder'_def algebra_simps min_def)
    next
      case False
      with rem5 have "remainder = 0" by simp
      with True show ?thesis
        by (simp add: dur_def remainder'_def algebra_simps)
    qed
    show ?thesis
      apply (rule exI [of _ "s # new"])
      using new d5 dr total True by (simp add: step s_def)
  qed
qed

lemma floor_div5: "\<lfloor>(of_int t :: rat) / of_int c / 5\<rfloor> = t div (c * 5)"
proof -
  have "(of_int t :: rat) / of_int c / 5 = of_int t / of_int (c * 5)"
    by simp
  then show ?thesis
    by (simp only: floor_divide_of_int_eq)
qed

text \<open>The partitioner is exact for every configuration whose bounds are multiples of five.\<close>

lemma buildBalancedSessions_multiples_of_five:
  assumes c: "2 \<le> cnt" and t5: "5 dvd targetMinutes"
    and lo: "cnt * minSessionLength cfg \<le> targetMinutes"
    and hi: "targetMinutes \<le> cnt * maxSessionLength cfg"
    and m5: "5 dvd minSessionLength cfg" "5 dvd maxSessionLength cfg"
    and mpos: "0 < minSessionLength cfg"
  shows "length (buildBalancedSessions targetMinutes cnt cfg) = nat cnt \<and>
         sum_list (map ss_duration (buildBalancedSessions targetMinutes cnt cfg)) = targetMinutes \<and>
         (\<forall>s \<in> set (buildBalancedSessions targetMinutes cnt cfg).
            5 dvd ss_duration s \<and> minSessionLength cfg \<le> ss_duration s \<and>
            ss_duration s \<le> maxSessionLength cfg)"
proof -
  define q where "q = targetMinutes div (cnt * 5)"
  define base where "base = q * 5"
  define r where "r = targetMinutes - base * cnt"
  obtain m where m: "minSessionLength cfg = 5 * m" using m5(1) by (auto elim: dvdE)
  obtain M where M: "maxSessionLength cfg = 5 * M" using m5(2) by (auto elim: dvdE)
  have cpos: "0 < cnt * 5" using c by simp
  have tpos: "0 < targetMinutes"
  proof -
    have "0 < cnt * minSessionLength cfg" using c mpos by simp
    with lo show ?thesis by simp
  qed
  have r_mod: "r = targetMinutes mod (cnt * 5)"
  proof -
    have "targetMinutes = (cnt * 5) * q + targetMinutes mod (cnt * 5)"
      unfolding q_def by simp
    then show ?thesis unfolding r_def base_def by (simp add: algebra_simps)
  qed
  have r0: "0 \<le> r" and rlt: "r < cnt * 5" and r5: "5 dvd r"
    using cpos t5 unfolding r_mod by (simp_all add: dvd_mod)
  have "(cnt * 5) * m div (cnt * 5) \<le> q"
    unfolding q_def using lo cpos by (intro zdiv_mono1) (simp_all add: m algebra_simps)
  then have qm: "m \<le> q" using cpos by simp
  have "q \<le> (cnt * 5) * M div (cnt * 5)"
    unfolding q_def using hi cpos by (intro zdiv_mono1) (simp_all add: M algebra_simps)
  then have qM: "q \<le> M" using cpos by simp
  have qM': "q + 1 \<le> M" if "5 \<le> r"
  proof (rule ccontr)
    assume "\<not> q + 1 \<le> M"
    with qM have "q = M" by simp
    then have "base * cnt = cnt * maxSessionLength cfg" by (simp add: base_def M)
    with hi that show False by (simp add: r_def)
  qed
  have b1: "minSessionLength cfg \<le> base" "base \<le> maxSessionLength cfg" "5 dvd base"
    using qm qM by (simp_all add: base_def m M)
  have b2: "r \<ge> 5 \<longrightarrow> base + 5 \<le> maxSessionLength cfg"
    using qM' by (auto simp: base_def M)
  from fillSessions_balanced [OF b1(1,2) b2 r0 r5 b1(3), of 0 cnt "[]"] c
  obtain new where new: "fillSessions cfg base cnt 0 r [] = new" "length new = nat cnt"
    "sum_list (map ss_duration new) = base * cnt + min r (5 * cnt)"
    "\<forall>s \<in> set new. 5 dvd ss_duration s \<and> minSessionLength cfg \<le> ss_duration s \<and>
               ss_duration s \<le> maxSessionLength cfg"
    by auto
  have total: "sum_list (map ss_duration new) = targetMinutes"
    using new(3) rlt by (simp add: r_def min_def algebra_simps)
  have fb: "\<lfloor>(of_int targetMinutes :: rat) / of_int cnt / 5\<rfloor> * 5 = base"
    by (simp only: floor_div5 base_def q_def)
  have rm: "max 0 (targetMinutes - base * cnt) = r"
    using r0 by (simp add: r_def)
  have "buildBalancedSessions targetMinutes cnt cfg = new"
    unfolding buildBalancedSessions_def fb Let_def rm new(1)
    using tpos c total by simp
  with new total show ?thesis by simp
qed

text \<open>
  Claim C5. With the lengths of \<^verbatim>\<open>STUDY_CONFIG\<close> (30 and 90 minutes), for a count of at
  least 2 and a target that is a multiple of 5 between \<open>count * min\<close> and \<open>count * max\<close>,
  \<^verbatim>\<open>buildBalancedSessions\<close> returns exactly \<open>count\<close> sessions whose durations add up to the
  target, each a multiple of 5 between the minimal and the maximal session length.
\<close>

theorem buildBalancedSessions_exact:
  assumes "2 \<le> cnt" and "5 dvd targetMinutes"
    and "cnt * minSessionLength STUDY_CONFIG \<le> targetMinutes"
    and "targetMinutes \<le> cnt * maxSessionLength STUDY_CONFIG"
  shows "length (buildBalancedSessions targetMinutes cnt STUDY_CONFIG) = nat cnt \<and>
         sum_list (map ss_duration (buildBalancedSessions targetMinutes cnt STUDY_CONFIG)) = targetMinutes \<and>
         (\<forall>s \<in> set (buildBalancedSessions targetMinutes cnt STUDY_CONFIG).
            5 dvd ss_duration s \<and> minSessionLength STUDY_CONFIG \<le> ss_duration s \<and>
            ss_duration s \<le> maxSessionLength STUDY_CONFIG)"
  using assms by (intro buildBalancedSessions_multiples_of_five) (simp_all add: STUDY_CONFIG_def)

text \<open>Four sessions for 185 minutes: 50, 45, 45 and 45.\<close>

theorem buildBalancedSessions_exact_witness:
  "(2::int) \<le> 4 \<and> (5::int) dvd 185 \<and> 4 * minSessionLength STUDY_CONFIG \<le> 185 \<and>
   185 \<le> 4 * maxSessionLength STUDY_CONFIG \<and>
   length (buildBalancedSessions 185 4 STUDY_CONFIG) = 4 \<and>
   sum_list (map ss_duration (buildBalancedSessions 185 4 STUDY_CONFIG)) = 185 \<and>
   map ss_duration (buildBalancedSessions 185 4 STUDY_CONFIG) = [50, 45, 45, 45]"
proof -
  have h: "(2::int) \<le> 4" "(5::int) dvd 185" "4 * minSessionLength STUDY_CONFIG \<le> 185"
    "185 \<le> 4 * maxSessionLength STUDY_CONFIG"
    by (simp_all add: STUDY_CONFIG_def)
  have e: "map ss_duration (buildBalancedSessions 185 4 STUDY_CONFIG) = [50, 45, 45, 45]"
    by code_simp
  from buildBalancedSessions_exact [OF h] h e show ?thesis by simp
qed

subsection \<open>Focus and breaks\<close>

lemma placeSessions_done:
  "sessionIndex st \<ge> length sessions \<Longrightarrow> placeSessions sessions slots st = st"
  by (cases slots) (simp_all add: placeSessions.simps)

text \<open>
  One round of the loop over the slots, on two sessions of 90 minutes: the round either
  leaves the state as it is or places the next session, and it pushes a long break only
  before a second session whose predecessor had no short break.
\<close>

lemma placeSessions_two_step:
  assumes "twoProgress b st"
  shows "\<exists>st2. placeSessions (twoSessions b) (slot # rest) st =
                  placeSessions (twoSessions b) rest st2 \<and> twoProgress b st2"
proof -
  consider (first) "sessionIndex st = 0" "continuousFocus st = 0" "sessionsSinceMacro st = 0"
      "map tk_kind (generatedTasks st) = []"
    | (second) "sessionIndex st = 1" "continuousFocus st = (if b then 0 else 90)"
      "sessionsSinceMacro st = 1"
      "map tk_kind (generatedTasks st) = (if b then [StudyTask 1, MicroBreak] else [StudyTask 1])"
    | (finished) "sessionIndex st = 2"
    using assms by (auto simp: twoProgress_def)
  then show ?thesis
  proof cases
    case first
    show ?thesis
    proof (cases "fs_start slot + (if b then 110 else 100) > fs_end slot")
      case True
      with first have "placeSessions (twoSessions b) (slot # rest) st =
          placeSessions (twoSessions b) rest st"
        by (subst placeSessions.simps) (simp add: twoSessions_def STUDY_CONFIG_def Let_def split: if_splits)
      with assms show ?thesis by blast
    next
      case False
      define st2 where "st2 =
        \<lparr>generatedTasks = generatedTasks st @
           (\<lparr>tk_kind = StudyTask 1, tk_start = fs_start slot + 5, tk_end = fs_start slot + 5 + 90\<rparr> #
            (if b then [\<lparr>tk_kind = MicroBreak, tk_start = fs_start slot + 5 + 90 + 5,
                         tk_end = fs_start slot + 5 + 90 + 5 + 10\<rparr>] else [])),
         sessionIndex = 1, continuousFocus = (if b then 0 else 90), sessionsSinceMacro = 1\<rparr>"
      from first False have "placeSessions (twoSessions b) (slot # rest) st =
          placeSessions (twoSessions b) rest st2"
        by (subst placeSessions.simps)
           (simp add: twoSessions_def STUDY_CONFIG_def Let_def st2_def split: if_splits)
      moreover have "twoProgress b st2"
        using first by (simp add: twoProgress_def st2_def split: if_splits)
      ultimately show ?thesis by blast
    qed
  next
    case second
    show ?thesis
    proof (cases "fs_start slot + (if b then 100 else 120) > fs_end slot")
      case True
      with second have "placeSessions (twoSessions b) (slot # rest) st =
          placeSessions (twoSessions b) rest st"
        by (subst placeSessions.simps) (simp add: twoSessions_def STUDY_CONFIG_def Let_def split: if_splits)
      with assms show ?thesis by blast
    next
      case False
      define st2 where "st2 =
        \<lparr>generatedTasks = generatedTasks st @
           (if b then
              [\<lparr>tk_kind = StudyTask 2, tk_start = fs_start slot + 5, tk_end = fs_start slot + 5 + 90\<rparr>]
            else
              [\<lparr>tk_kind = MacroBreakBeforeSession, tk_start = fs_start slot,
                tk_end = fs_start slot + 20\<rparr>,
               \<lparr>tk_kind = StudyTask 2, tk_start = fs_start slot + 20 + 5,
                tk_end = fs_start slot + 20 + 5 + 90\<rparr>]),
         sessionIndex = 2, continuousFocus = 90, sessionsSinceMacro = (if b then 2 else 1)\<rparr>"
      from second False have "placeSessions (twoSessions b) (slot # rest) st =
          placeSessions (twoSessions b) rest st2"
        by (subst placeSessions.simps)
           (simp add: twoSessions_def STUDY_CONFIG_def Let_def st2_def numeral_2_eq_2 split: if_splits)
      moreover have "twoProgress b st2"
        using second by (simp add: twoProgress_def st2_def split: if_splits)
      ultimately show ?thesis by blast
    qed
  next
    case finished
    then have "placeSessions (twoSessions b) (slot # rest) st = st"
      "placeSessions (twoSessions b) rest st = st"
      by (simp_all add: placeSessions_done twoSessions_def)
    with assms show ?thesis by metis
  qed
qed

lemma placeSessions_two:
  "twoProgress b st \<Longrightarrow> twoProgress b (placeSessions (twoSessions b) slots st)"
proof (induction slots arbitrary: st)
  case Nil
  then show ?case by simp
next
  case (Cons slot rest)
  from placeSessions_two_step [OF Cons.prems, of slot rest] obtain st2 where
    "placeSessions (twoSessions b) (slot # rest) st = placeSessions (twoSessions b) rest st2"
    "twoProgress b st2"
    by blast
  with Cons.IH [of st2] show ?case by simp
qed

text \<open>
  A short break after the first session sets the continuous focus back to zero: on
  \<open>twoSessions True\<close>, the two sessions that the partitioner builds for 180 minutes, the tasks
  generated are nothing, or the first session and its short break, or these and the second
  session.
\<close>

lemma micro_break_resets_focus:
  "buildBalancedSessions 180 2 STUDY_CONFIG = twoSessions True \<and>
   map tk_kind (allocateSimpleSessions (twoSessions True) freeSlots)
     \<in> {[], [StudyTask 1, MicroBreak], [StudyTask 1, MicroBreak, StudyTask 2]}"
proof
  show "buildBalancedSessions 180 2 STUDY_CONFIG = twoSessions True"
    by code_simp
  have "twoProgress True \<lparr>generatedTasks = [], sessionIndex = 0, continuousFocus = 0,
      sessionsSinceMacro = 0\<rparr>"
    by (simp add: twoProgress_def)
  from placeSessions_two [OF this, of "sort_key fs_start freeSlots"]
  show "map tk_kind (allocateSimpleSessions (twoSessions True) freeSlots)
     \<in> {[], [StudyTask 1, MicroBreak], [StudyTask 1, MicroBreak, StudyTask 2]}"
    by (auto simp: allocateSimpleSessions_def twoProgress_def)
qed


section \<open>Properties of the free-slot finder and the selector\<close>

subsection \<open>Synthesized meal blocks\<close>

lemma addMealLoop_append:
  "addMealLoop blocks meals result =
     result @ map mealBlock
       (filter (\<lambda>meal. \<not> list_ex (\<lambda>block. b_originalStart block < m_end meal \<and>
                                           b_originalEnd block > m_start meal) blocks) meals)"
  by (induction meals arbitrary: result) (simp_all add: Let_def)

lemma mealBlock_inj: "mealBlock m = mealBlock m' \<Longrightarrow> m = m'"
  by (cases m, cases m') (simp add: mealBlock_def)

text \<open>
  Claim C8. For each of the fixed meal windows and every list of raw commitments, the block
  of the window, buffered by 15 minutes on each side, is among the blocks that
  \<^verbatim>\<open>addMealBreaks\<close> returns if and only if no commitment's original interval
  \<open>(fi_startTime, fi_endTime)\<close> overlaps the window; the buffered bounds of the commitments play
  no part in the test. Nothing but such meal blocks is added to the buffered commitments.
\<close>

theorem addMealBreaks_iff_no_conflict:
  assumes "meal \<in> set mealTimes"
  shows "(mealBlock meal \<in> set (addMealBreaks (map bufferedBlock fixedSchedule)) \<longleftrightarrow>
            \<not> (\<exists>item \<in> set fixedSchedule.
                  fi_startTime item < m_end meal \<and> m_start meal < fi_endTime item)) \<and>
         b_start (mealBlock meal) = m_start meal - 15 \<and>
         b_end (mealBlock meal) = m_end meal + 15 \<and>
         (\<forall>b \<in> set (addMealBreaks (map bufferedBlock fixedSchedule)).
            b \<in> set (map bufferedBlock fixedSchedule) \<or> (\<exists>m \<in> set mealTimes. b = mealBlock m))"
proof -
  let ?blocks = "map bufferedBlock fixedSchedule"
  let ?free = "\<lambda>meal. \<not> list_ex (\<lambda>block. b_originalStart block < m_end meal \<and>
                                           b_originalEnd block > m_start meal) ?blocks"
  have eq: "addMealBreaks ?blocks = ?blocks @ map mealBlock (filter ?free mealTimes)"
    by (simp add: addMealBreaks_def addMealLoop_append)
  have orig: "?free m \<longleftrightarrow> \<not> (\<exists>item \<in> set fixedSchedule.
                  fi_startTime item < m_end m \<and> m_start m < fi_endTime item)" for m
    by (auto simp: list_ex_iff bufferedBlock_def Let_def)
  have notfixed: "mealBlock meal \<notin> set ?blocks"
    by (auto simp: bufferedBlock_def mealBlock_def Let_def)
  have "mealBlock meal \<in> set (addMealBreaks ?blocks) \<longleftrightarrow>
      mealBlock meal \<in> mealBlock ` {m \<in> set mealTimes. ?free m}"
    using notfixed by (simp add: eq)
  also have "\<dots> \<longleftrightarrow> ?free meal"
    using assms by (auto dest: mealBlock_inj)
  finally have 1: "mealBlock meal \<in> set (addMealBreaks ?blocks) \<longleftrightarrow>
            \<not> (\<exists>item \<in> set fixedSchedule.
                  fi_startTime item < m_end meal \<and> m_start meal < fi_endTime item)"
    by (simp only: orig)
  have 2: "\<forall>b \<in> set (addMealBreaks ?blocks). b \<in> set ?blocks \<or> (\<exists>m \<in> set mealTimes. b = mealBlock m)"
    by (auto simp: eq)
  show ?thesis
    using 1 2 by (simp add: mealBlock_def)
qed

text \<open>
  The lunch window 12:00-13:00 with a commitment from 11:00 to 12:00: the commitment's
  buffered block ends at 12:15, inside the window, but its original interval does not
  overlap the window, so the lunch block 11:45-13:15 is added.
\<close>

theorem addMealBreaks_iff_no_conflict_witness:
  "lunchWindow \<in> set mealTimes \<and>
   mealBlock lunchWindow \<in> set (addMealBreaks (map bufferedBlock gymBeforeLunch)) \<and>
   b_start (mealBlock lunchWindow) = 11 * 60 + 45 \<and>
   b_end (mealBlock lunchWindow) = 13 * 60 + 15 \<and>
   b_end (bufferedBlock (hd gymBeforeLunch)) = 12 * 60 + 15"
proof -
  have h: "lunchWindow \<in> set mealTimes"
    by (simp add: lunchWindow_def mealTimes_def)
  have free: "\<not> (\<exists>item \<in> set gymBeforeLunch.
                  fi_startTime item < m_end lunchWindow \<and> m_start lunchWindow < fi_endTime item)"
    by (simp add: gymBeforeLunch_def lunchWindow_def)
  have buf: "b_end (bufferedBlock (hd gymBeforeLunch)) = 12 * 60 + 15"
    by code_simp
  from addMealBreaks_iff_no_conflict [OF h, of gymBeforeLunch] free
  have "mealBlock lunchWindow \<in> set (addMealBreaks (map bufferedBlock gymBeforeLunch))"
    and "b_start (mealBlock lunchWindow) = m_start lunchWindow - 15"
    and "b_end (mealBlock lunchWindow) = m_end lunchWindow + 15"
    by blast+
  with h buf show ?thesis
    by (simp add: lunchWindow_def)
qed

text \<open>
  A title in capital letters is classified as its lower-case form is: the lunch gets the
  buffers of a meal, 30 minutes before and 45 minutes after.
\<close>

lemma getBufferForActivity_capitals:
  "getBufferForActivity lunchInCapitals = BUFFER_CONFIG Meal \<and>
   b_start (bufferedBlock lunchInCapitals) = 11 * 60 + 30 \<and>
   b_end (bufferedBlock lunchInCapitals) = 13 * 60 + 45"
  by code_simp

lemma getContentTemplate_examples:
  "getContentTemplate ''Java Script'' = Template (the (map_of LEARNING_TEMPLATES ''javascript'')) \<and>
   getContentTemplate [CHR ''R'', CHR ''e'', CHR 0xC2, CHR 0xA0, CHR ''a'', CHR ''c'', CHR ''t''] =
     Template (the (map_of LEARNING_TEMPLATES ''react'')) \<and>
   getContentTemplate ''constructor'' = Inherited"
  by code_simp

subsection \<open>The length of a free slot\<close>

lemma findGaps_at_least_30:
  "\<forall>s \<in> set freeSlots. 30 \<le> sl_duration s \<Longrightarrow>
   \<forall>s \<in> set (snd (findGaps mealsAdded blocks currentTime freeSlots)). 30 \<le> sl_duration s"
proof (induction blocks arbitrary: currentTime freeSlots)
  case Nil
  then show ?case by simp
next
  case (Cons block rest)
  define freeSlots' where "freeSlots' =
    (if currentTime < b_start block \<and> b_start block - currentTime \<ge> 30 then
       freeSlots @
         [\<lparr>sl_start = currentTime, sl_end = b_start block,
           sl_duration = b_start block - currentTime,
           sl_startTime = currentTime, sl_endTime = b_start block,
           sl_beforeActivity = Some (b_title block),
           sl_afterActivity = findPreviousActivity mealsAdded block,
           sl_score = None\<rparr>]
     else freeSlots)"
  have step: "findGaps mealsAdded (block # rest) currentTime freeSlots =
      findGaps mealsAdded rest (max currentTime (b_end block)) freeSlots'"
    by (simp add: Let_def freeSlots'_def)
  have "\<forall>s \<in> set freeSlots'. 30 \<le> sl_duration s"
    using Cons.prems by (simp add: freeSlots'_def)
  from Cons.IH [OF this] show ?case
    by (simp only: step)
qed

text \<open>A gap becomes a free slot only if it is at least 30 minutes long.\<close>

lemma findIntelligentFreeSlots_at_least_30:
  "\<forall>s \<in> set (findIntelligentFreeSlots fixedSchedule). 30 \<le> sl_duration s"
proof -
  let ?meals = "sort_key b_start (addMealBreaks (map bufferedBlock fixedSchedule))"
  obtain currentTime freeSlots where
    g: "findGaps ?meals ?meals 360 [] = (currentTime, freeSlots)"
    by (cases "findGaps ?meals ?meals 360 []") auto
  have "\<forall>s \<in> set (snd (findGaps ?meals ?meals 360 [])). 30 \<le> sl_duration s"
    by (rule findGaps_at_least_30) simp
  then have "\<forall>s \<in> set freeSlots. 30 \<le> sl_duration s"
    by (simp only: g snd_conv)
  then show ?thesis
    by (simp add: findIntelligentFreeSlots_def Let_def g)
qed

subsection \<open>The slot selector\<close>



text \<open>
  The titles of the meal blocks that \<^verbatim>\<open>addMealBreaks\<close> adds do not contain \<^verbatim>\<open>meal\<close>: a slot
  next to one of them gets neither the bonus nor the penalty.
\<close>

lemma mealBlock_not_mentionsMeal:
  "list_all (\<lambda>meal. \<not> mentionsMeal (Some (b_title (mealBlock meal)))) mealTimes"
  by code_simp














section \<open>Properties of the allocators\<close>

subsection \<open>Selecting and consuming a slot\<close>

lemma indexOf_None_iff: "indexOf xs x = None \<longleftrightarrow> x \<notin> set xs"
  by (induction xs) auto

lemma foldl_pick_mem:
  "foldl (\<lambda>best current. if gt current best then current else best) x xs \<in> set (x # xs)"
proof (induction xs arbitrary: x)
  case Nil
  then show ?case by simp
next
  case (Cons y ys)
  from Cons.IH [of "if gt y x then y else x"] show ?case
    by (auto split: if_splits)
qed

lemma findBestSlotWith_None:
  "findBestSlotWith scoreFn goal pool rem st0 = (None, st1) \<Longrightarrow> st1 = st0"
  by (simp add: findBestSlotWith_def Let_def split: if_splits)

lemma findBestSlotWith_Some:
  assumes "findBestSlotWith scoreFn goal pool rem st0 = (Some best, st1)"
  shows "length st0 \<le> best \<and> best < length st1 \<and> take (length st0) st1 = st0 \<and>
         (\<exists>r \<in> set pool. len_min (g_sessionLength goal) \<le> sl_duration (st0 ! r) \<and>
            st1 ! best = (st0 ! r)\<lparr>sl_score := Some (scoreFn goal (st0 ! r))\<rparr>)"
proof -
  define suitable where
    "suitable = filter (\<lambda>r. sl_duration (st0 ! r) \<ge> len_min (g_sessionLength goal)) pool"
  define scored where "scored = [length st0 ..< length st0 + length suitable]"
  from assms have ne: "suitable \<noteq> []"
    by (auto simp: findBestSlotWith_def Let_def suitable_def split: if_splits)
  have st1: "st1 = st0 @ map (\<lambda>r. (st0 ! r)\<lparr>sl_score := Some (scoreFn goal (st0 ! r))\<rparr>) suitable"
    using assms ne by (simp add: findBestSlotWith_def Let_def suitable_def)
  have best: "best = foldl (\<lambda>best current.
        if score_gt (sl_score (st1 ! current)) (sl_score (st1 ! best)) then current else best)
      (hd scored) (tl scored)"
    using assms ne by (simp add: findBestSlotWith_def Let_def suitable_def scored_def st1)
  have "scored \<noteq> []" using ne by (simp add: scored_def)
  then have "best \<in> set scored"
    unfolding best
    using foldl_pick_mem [of "\<lambda>c b. score_gt (sl_score (st1 ! c)) (sl_score (st1 ! b))" "hd scored" "tl scored"]
    by simp
  then have rng: "length st0 \<le> best" "best < length st0 + length suitable"
    by (simp_all add: scored_def)
  then obtain k where k: "best = length st0 + k" "k < length suitable"
    by (metis add_diff_inverse_nat less_diff_conv2 not_less nat_add_left_cancel_less)
  have "suitable ! k \<in> set suitable" using k by simp
  then have mem: "suitable ! k \<in> set pool"
    and dur: "len_min (g_sessionLength goal) \<le> sl_duration (st0 ! (suitable ! k))"
    by (simp_all add: suitable_def)
  have obj: "st1 ! best = (st0 ! (suitable ! k))\<lparr>sl_score := Some (scoreFn goal (st0 ! (suitable ! k)))\<rparr>"
    using k by (simp add: st1 nth_append)
  show ?thesis
    using rng mem dur obj by (auto simp: st1)
qed

text \<open>
  A reference that no element of the pool equals is not found by \<^verbatim>\<open>indexOf\<close>, and then
  \<^verbatim>\<open>updateAvailableSlot\<close> returns at once: neither the pool nor the store changes.
\<close>

lemma updateAvailableSlot_fresh:
  assumes "\<forall>r \<in> set pool. r < n" "n \<le> u"
  shows "updateAvailableSlot pool st u d = (pool, st)"
proof -
  from assms have "u \<notin> set pool" by auto
  then show ?thesis
    by (simp add: updateAvailableSlot_def indexOf_None_iff [THEN iffD2])
qed

lemma updateAvailableSlot_prefix:
  assumes "n \<le> u" "updateAvailableSlot pool st u d = (pool', st')"
  shows "length st' = length st \<and> take n st' = take n st"
  using assms
  by (auto simp: updateAvailableSlot_def Let_def split: option.splits if_splits)

text \<open>
  Handed a slot of the pool, \<^verbatim>\<open>updateAvailableSlot\<close> shrinks it in place when at least 30
  minutes remain and removes it otherwise; in either case the slots of the pool keep a
  duration of at least 30 minutes.
\<close>

lemma updateAvailableSlot_in_pool:
  assumes "indexOf pool u = Some i"
  shows "updateAvailableSlot pool st u d =
     (if 30 \<le> sl_duration (st ! u) - d
      then (pool, st[u := (st ! u)\<lparr>sl_duration := sl_duration (st ! u) - d,
                                   sl_start := sl_start (st ! u) + d,
                                   sl_startTime := sl_startTime (st ! u) + d\<rparr>])
      else (take i pool @ drop (Suc i) pool, st))"
  using assms by (simp add: updateAvailableSlot_def Let_def)

lemma updateAvailableSlot_keeps_30:
  assumes "\<forall>r \<in> set pool. 30 \<le> sl_duration (st ! r)"
    and "updateAvailableSlot pool st u d = (pool', st')"
  shows "\<forall>r \<in> set pool'. 30 \<le> sl_duration (st' ! r)"
proof (cases "indexOf pool u")
  case None
  with assms show ?thesis by (simp add: updateAvailableSlot_def)
next
  case (Some i)
  show ?thesis
  proof (cases "30 \<le> sl_duration (st ! u) - d")
    case True
    with assms(2) Some have e: "pool' = pool"
      "st' = st[u := (st ! u)\<lparr>sl_duration := sl_duration (st ! u) - d,
                                   sl_start := sl_start (st ! u) + d,
                                   sl_startTime := sl_startTime (st ! u) + d\<rparr>]"
      by (simp_all add: updateAvailableSlot_in_pool)
    show ?thesis
    proof
      fix r assume r: "r \<in> set pool'"
      show "30 \<le> sl_duration (st' ! r)"
      proof (cases "r = u \<and> u < length st")
        case True
        with \<open>30 \<le> sl_duration (st ! u) - d\<close> show ?thesis by (simp add: e)
      next
        case False
        have "st' ! r = st ! r"
        proof (cases "u < length st")
          case True
          with False have "r \<noteq> u" by simp
          then show ?thesis by (simp add: e)
        next
          case False
          then have "length st \<le> u" by simp
          then show ?thesis by (simp add: e list_update_beyond)
        qed
        with assms(1) r e show ?thesis by simp
      qed
    qed
  next
    case False
    with assms(2) Some have e: "pool' = take i pool @ drop (Suc i) pool" "st' = st"
      by (simp_all add: updateAvailableSlot_in_pool)
    have "set pool' \<subseteq> set pool"
      unfolding e using set_take_subset [of i pool] set_drop_subset [of "Suc i" pool] by auto
    with assms(1) e show ?thesis by auto
  qed
qed

subsection \<open>The loops over the sessions of a goal\<close>

text \<open>
  What the loop of the enhanced engine does for one goal: it appends sessions of this goal,
  each within the goal's bounds, whose durations add up to at most the minutes that were
  left; it only extends the store; and it leaves the pool as it was.
\<close>

lemma allocateGoalSessions_result:
  assumes "allocateGoalSessions goal template rem idx st = Inr st'"
  shows "\<exists>new. generatedSchedule st' = generatedSchedule st @ new \<and>
           (\<forall>s \<in> set new. it_learningGoalId s = g_id goal \<and>
               len_min (g_sessionLength goal) \<le> it_duration s \<and>
               it_duration s \<le> len_max (g_sessionLength goal)) \<and>
           sum_list (map it_duration new) \<le> max 0 rem \<and>
           length (store st) \<le> length (store st') \<and>
           take (length (store st)) (store st') = store st \<and>
           (poolValid st \<longrightarrow> availableSlots st' = availableSlots st)"
  using assms
proof (induction goal template rem idx st arbitrary: st' rule: allocateGoalSessions.induct)
  case (1 goal template rem idx st)
  note prem = "1.prems" [unfolded allocateGoalSessions.simps [of goal template rem idx st]]
  show ?case
  proof (cases "rem > 0 \<and> availableSlots st \<noteq> []")
    case False
    with prem have "st' = st" by (simp split: if_splits)
    then show ?thesis by simp
  next
    case go: True
    show ?thesis
    proof (cases template)
      case Inherited
      with prem go show ?thesis by simp
    next
      case (Template sessions)
      show ?thesis
      proof (cases "idx < length sessions")
        case False
        with prem go Template have "st' = st" by simp
        then show ?thesis by simp
      next
        case idx: True
        obtain ob st1 where fb: "findBestSlotForGoal goal (availableSlots st) rem (store st) = (ob, st1)"
          by (cases "findBestSlotForGoal goal (availableSlots st) rem (store st)") auto
        show ?thesis
        proof (cases ob)
          case None
          with fb have "st1 = store st"
            by (auto simp: findBestSlotForGoal_def dest: findBestSlotWith_None)
          with prem go Template idx fb None have "st' = st" by simp
          then show ?thesis by simp
        next
          case (Some best)
          from fb Some findBestSlotWith_Some [of scoreSlotForGoalWithContext goal "availableSlots st" rem "store st" best st1]
          have b: "length (store st) \<le> best" "best < length st1" "take (length (store st)) st1 = store st"
            by (simp_all add: findBestSlotForGoal_def)
          then have len1: "length (store st) \<le> length st1" by simp
          define d where "d = min (ts_duration (sessions ! idx))
                            (min rem (min (sl_duration (st1 ! best)) (len_max (g_sessionLength goal))))"
          obtain pool2 st2 where up: "updateAvailableSlot (availableSlots st) st1 best d = (pool2, st2)"
            by (cases "updateAvailableSlot (availableSlots st) st1 best d") auto
          define item where "item =
              \<lparr>it_learningGoalId = g_id goal, it_subject = g_subject goal,
               it_startTime = sl_startTime (st1 ! best),
               it_endTime = sl_startTime (st1 ! best) + d,
               it_duration = d, it_priority = g_priority goal,
               it_category = g_category goal, it_color = g_color goal, it_icon = g_icon goal,
               it_sessionTopic = Some (ts_topic (sessions ! idx)),
               it_sessionOrder = Some (ts_order (sessions ! idx)),
               it_contextBefore = sl_afterActivity (st1 ! best),
               it_contextAfter = sl_beforeActivity (st1 ! best),
               it_suggestedBreak = Some (getSuggestedBreak d)\<rparr>"
          define stn where "stn = \<lparr>generatedSchedule = generatedSchedule st @ [item],
               availableSlots = pool2, store = st2\<rparr>"
          have eq: "allocateGoalSessions goal template rem idx st =
              (if len_min (g_sessionLength goal) \<le> d
               then allocateGoalSessions goal template (rem - d) (idx + 1) stn
               else Inr (st\<lparr>store := st1\<rparr>))"
            by (subst allocateGoalSessions.simps)
               (simp add: go Template idx fb Some up [unfolded d_def] Let_def d_def item_def stn_def)
          show ?thesis
          proof (cases "d \<ge> len_min (g_sessionLength goal)")
            case False
            with "1.prems" eq have "st' = st\<lparr>store := st1\<rparr>"
              by simp
            with b len1 show ?thesis by simp
          next
            case dmin: True
            have rec: "allocateGoalSessions goal template (rem - d) (idx + 1) stn = Inr st'"
              using "1.prems" eq dmin by simp
            have IH: "\<exists>new. generatedSchedule st' = generatedSchedule stn @ new \<and>
               (\<forall>s \<in> set new. it_learningGoalId s = g_id goal \<and>
               len_min (g_sessionLength goal) \<le> it_duration s \<and>
               it_duration s \<le> len_max (g_sessionLength goal)) \<and>
               sum_list (map it_duration new) \<le> max 0 (rem - d) \<and>
               length (store stn) \<le> length (store st') \<and>
               take (length (store stn)) (store st') = store stn \<and>
               (poolValid stn \<longrightarrow> availableSlots st' = availableSlots stn)"
              by (rule "1.IH" [OF go Template idx fb [symmetric] Some refl refl, folded d_def,
                    OF dmin refl refl up [symmetric], folded item_def stn_def, OF rec])
            then obtain new where new: "generatedSchedule st' = generatedSchedule stn @ new"
               "\<forall>s \<in> set new. it_learningGoalId s = g_id goal \<and>
               len_min (g_sessionLength goal) \<le> it_duration s \<and>
               it_duration s \<le> len_max (g_sessionLength goal)"
               "sum_list (map it_duration new) \<le> max 0 (rem - d)"
               "length (store stn) \<le> length (store st')"
               "take (length (store stn)) (store st') = store stn"
               "poolValid stn \<longrightarrow> availableSlots st' = availableSlots stn"
              by blast
            from updateAvailableSlot_prefix [OF b(1) up]
            have l2: "length st2 = length st1" "take (length (store st)) st2 = store st"
              using b(3) by simp_all
            have dle: "d \<le> rem" "d \<le> len_max (g_sessionLength goal)" by (simp_all add: d_def)
            have c1: "generatedSchedule st' = generatedSchedule st @ (item # new)"
              using new(1) by (simp add: stn_def)
            have c2: "\<forall>s \<in> set (item # new). it_learningGoalId s = g_id goal \<and>
               len_min (g_sessionLength goal) \<le> it_duration s \<and>
               it_duration s \<le> len_max (g_sessionLength goal)"
              using new(2) dmin dle by (simp add: item_def)
            have c3: "sum_list (map it_duration (item # new)) \<le> max 0 rem"
              using new(3) dle go by (simp add: item_def max_def split: if_splits)
            have c4: "length (store st) \<le> length (store st')"
              using new(4) l2 len1 by (simp add: stn_def)
            have "take (length (store st)) (store st') = take (length (store st)) (take (length st2) (store st'))"
              using l2 len1 by (simp add: min_def)
            also have "\<dots> = store st"
              using new(5) l2 by (simp add: stn_def)
            finally have c5: "take (length (store st)) (store st') = store st" .
            have c6: "availableSlots st' = availableSlots st" if pv: "poolValid st"
            proof -
              from pv b(1) have "updateAvailableSlot (availableSlots st) st1 best d = (availableSlots st, st1)"
                by (intro updateAvailableSlot_fresh [of _ "length (store st)"]) (simp_all add: poolValid_def)
              with up have e: "pool2 = availableSlots st" "st2 = st1" by simp_all
              with pv len1 have "poolValid stn"
                by (auto simp: poolValid_def stn_def)
              with new(6) e show ?thesis by (simp add: stn_def)
            qed
            from c1 c2 c3 c4 c5 c6 show ?thesis by blast
          qed
        qed
      qed
    qed
  qed
qed

text \<open>
  The loop of \<^verbatim>\<open>SchedulingEngine\<close>, when it ends: a session is at most the goal's maximum,
  and it is at least the minimum when the minimum does not exceed the maximum; the raise to
  the minimum lets the sum pass the minutes that were left, by less than the minimum.
\<close>

lemma allocateGoalTime_result:
  assumes "allocateGoalTime goal rem st = Some st'"
  shows "\<exists>new. generatedSchedule st' = generatedSchedule st @ new \<and>
           (\<forall>s \<in> set new. it_learningGoalId s = g_id goal \<and>
               it_duration s \<le> len_max (g_sessionLength goal) \<and>
               (len_min (g_sessionLength goal) \<le> len_max (g_sessionLength goal) \<longrightarrow>
                  len_min (g_sessionLength goal) \<le> it_duration s)) \<and>
           (rem \<le> 0 \<longrightarrow> new = []) \<and>
           (0 < len_min (g_sessionLength goal) \<longrightarrow>
            len_min (g_sessionLength goal) \<le> len_max (g_sessionLength goal) \<longrightarrow> 0 < rem \<longrightarrow>
              sum_list (map it_duration new) < rem + len_min (g_sessionLength goal)) \<and>
           length (store st) \<le> length (store st') \<and>
           take (length (store st)) (store st') = store st \<and>
           (poolValid st \<longrightarrow> availableSlots st' = availableSlots st)"
proof (rule allocateGoalTime.raw_induct [OF _ assms], goal_cases)
  case (1 f goal rem st st')
  note hyps = "1"(2) and IH = "1"(1)
  show ?case
  proof (cases "rem > 0 \<and> availableSlots st \<noteq> []")
    case False
    with hyps have "st' = st" by (simp split: if_splits)
    then show ?thesis by simp
  next
    case go: True
    obtain ob st1 where fb: "SE_findBestSlotForGoal goal (availableSlots st) rem (store st) = (ob, st1)"
      by (cases "SE_findBestSlotForGoal goal (availableSlots st) rem (store st)") auto
    show ?thesis
    proof (cases ob)
      case None
      with fb have "st1 = store st"
        by (auto simp: SE_findBestSlotForGoal_def dest: findBestSlotWith_None)
      with hyps go fb None have "st' = st" by simp
      then show ?thesis by simp
    next
      case (Some best)
      from fb Some findBestSlotWith_Some [of scoreSlotForGoal goal "availableSlots st" rem "store st" best st1]
      have b: "length (store st) \<le> best" "best < length st1" "take (length (store st)) st1 = store st"
        by (simp_all add: SE_findBestSlotForGoal_def)
      then have len1: "length (store st) \<le> length st1" by simp
      define d where "d = calculateOptimalSessionDuration goal (sl_duration (st1 ! best)) rem"
      obtain pool2 st2 where up: "updateAvailableSlot (availableSlots st) st1 best d = (pool2, st2)"
        by (cases "updateAvailableSlot (availableSlots st) st1 best d") auto
      define item where "item =
         \<lparr>it_learningGoalId = g_id goal, it_subject = g_subject goal,
          it_startTime = sl_startTime (st1 ! best),
          it_endTime = sl_startTime (st1 ! best) + d,
          it_duration = d, it_priority = g_priority goal,
          it_category = g_category goal, it_color = g_color goal, it_icon = g_icon goal,
          it_sessionTopic = None, it_sessionOrder = None,
          it_contextBefore = None, it_contextAfter = None, it_suggestedBreak = None\<rparr>"
      define stn where "stn = \<lparr>generatedSchedule = generatedSchedule st @ [item],
          availableSlots = pool2, store = st2\<rparr>"
      have rec: "f goal (rem - d) stn = Some st'"
        using hyps go fb Some up [unfolded d_def]
        by (simp add: Let_def d_def item_def stn_def)
      from IH [OF rec] obtain new where new:
        "generatedSchedule st' = generatedSchedule stn @ new"
        "\<forall>s \<in> set new. it_learningGoalId s = g_id goal \<and>
               it_duration s \<le> len_max (g_sessionLength goal) \<and>
               (len_min (g_sessionLength goal) \<le> len_max (g_sessionLength goal) \<longrightarrow>
                  len_min (g_sessionLength goal) \<le> it_duration s)"
        "rem - d \<le> 0 \<longrightarrow> new = []"
        "0 < len_min (g_sessionLength goal) \<longrightarrow>
            len_min (g_sessionLength goal) \<le> len_max (g_sessionLength goal) \<longrightarrow> 0 < rem - d \<longrightarrow>
              sum_list (map it_duration new) < rem - d + len_min (g_sessionLength goal)"
        "length (store stn) \<le> length (store st')"
        "take (length (store stn)) (store st') = store stn"
        "poolValid stn \<longrightarrow> availableSlots st' = availableSlots stn"
        by blast
      from updateAvailableSlot_prefix [OF b(1) up]
      have l2: "length st2 = length st1" "take (length (store st)) st2 = store st"
        using b(3) by simp_all
      have c5: "length (store st) \<le> length (store st')"
        using new(5) l2 len1 by (simp add: stn_def)
      have "take (length (store st)) (store st') = take (length (store st)) (take (length st2) (store st'))"
        using l2 len1 by (simp add: min_def)
      also have "\<dots> = store st"
        using new(6) l2 by (simp add: stn_def)
      finally have c6: "take (length (store st)) (store st') = store st" .
      have c7: "availableSlots st' = availableSlots st" if pv: "poolValid st"
      proof -
        from pv b(1) have "updateAvailableSlot (availableSlots st) st1 best d = (availableSlots st, st1)"
          by (intro updateAvailableSlot_fresh [of _ "length (store st)"]) (simp_all add: poolValid_def)
        with up have e: "pool2 = availableSlots st" "st2 = st1" by simp_all
        with pv len1 have "poolValid stn"
          by (auto simp: poolValid_def stn_def)
        with new(7) e show ?thesis by (simp add: stn_def)
      qed
      have dmax: "d \<le> len_max (g_sessionLength goal)"
        by (simp add: d_def calculateOptimalSessionDuration_def Let_def)
      have dmin: "len_min (g_sessionLength goal) \<le> d"
        if "len_min (g_sessionLength goal) \<le> len_max (g_sessionLength goal)"
        using that by (simp add: d_def calculateOptimalSessionDuration_def Let_def)
      have dle: "d \<le> max rem (len_min (g_sessionLength goal))"
        by (auto simp: d_def calculateOptimalSessionDuration_def Let_def max_def min_def)
      have c1: "generatedSchedule st' = generatedSchedule st @ (item # new)"
        using new(1) by (simp add: stn_def)
      have c2: "\<forall>s \<in> set (item # new). it_learningGoalId s = g_id goal \<and>
               it_duration s \<le> len_max (g_sessionLength goal) \<and>
               (len_min (g_sessionLength goal) \<le> len_max (g_sessionLength goal) \<longrightarrow>
                  len_min (g_sessionLength goal) \<le> it_duration s)"
        using new(2) dmax dmin by (simp add: item_def)
      have c3: "rem \<le> 0 \<longrightarrow> item # new = []" using go by simp
      have c4: "sum_list (map it_duration (item # new)) < rem + len_min (g_sessionLength goal)"
        if h: "0 < len_min (g_sessionLength goal)"
          "len_min (g_sessionLength goal) \<le> len_max (g_sessionLength goal)"
      proof (cases "0 < rem - d")
        case True
        with new(4) h show ?thesis by (simp add: item_def)
      next
        case False
        with new(3) have "new = []" by simp
        with dle h go show ?thesis by (simp add: item_def max_def split: if_splits)
      qed
      from c1 c2 c3 c4 c5 c6 c7 show ?thesis by blast
    qed
  qed
qed

text \<open>The loop of \<^verbatim>\<open>SchedulingEngine\<close> ends when the session lengths are positive.\<close>

lemma allocateGoalTime_returns_aux:
  assumes m: "0 < len_min (g_sessionLength goal)"
      "len_min (g_sessionLength goal) \<le> len_max (g_sessionLength goal)"
  shows "rem \<le> of_nat n * len_min (g_sessionLength goal) \<Longrightarrow> \<exists>st'. allocateGoalTime goal rem st = Some st'"
proof (induction n arbitrary: rem st)
  case 0
  then have "\<not> rem > 0" by simp
  then show ?case by (subst allocateGoalTime.simps) simp
next
  case (Suc n)
  show ?case
  proof (cases "rem > 0 \<and> availableSlots st \<noteq> []")
    case False
    then show ?thesis by (subst allocateGoalTime.simps) auto
  next
    case go: True
    obtain ob st1 where fb: "SE_findBestSlotForGoal goal (availableSlots st) rem (store st) = (ob, st1)"
      by (cases "SE_findBestSlotForGoal goal (availableSlots st) rem (store st)") auto
    show ?thesis
    proof (cases ob)
      case None
      with go fb show ?thesis by (subst allocateGoalTime.simps) simp
    next
      case (Some best)
      define d where "d = calculateOptimalSessionDuration goal (sl_duration (st1 ! best)) rem"
      have "len_min (g_sessionLength goal) \<le> d"
        using m by (simp add: d_def calculateOptimalSessionDuration_def Let_def)
      with Suc.prems have "rem - d \<le> of_nat n * len_min (g_sessionLength goal)"
        by (simp add: algebra_simps)
      from Suc.IH [OF this] show ?thesis
        using go fb Some
        by (subst allocateGoalTime.simps) (simp add: Let_def d_def split: prod.splits)
    qed
  qed
qed

lemma allocateGoalTime_returns:
  assumes "0 < len_min (g_sessionLength goal)"
      "len_min (g_sessionLength goal) \<le> len_max (g_sessionLength goal)"
  shows "\<exists>st'. allocateGoalTime goal rem st = Some st'"
proof -
  obtain n :: nat where "rem / len_min (g_sessionLength goal) \<le> of_nat n"
    using real_arch_simple by blast
  with assms(1) have "rem \<le> of_nat n * len_min (g_sessionLength goal)"
    by (simp add: pos_divide_le_eq)
  then show ?thesis by (rule allocateGoalTime_returns_aux [OF assms])
qed

lemma allocateLearningTime_returns:
  assumes "\<forall>g \<in> set learningGoals. 0 < len_min (g_sessionLength g) \<and>
             len_min (g_sessionLength g) \<le> len_max (g_sessionLength g)"
  shows "\<exists>plan. allocateLearningTime learningGoals freeSlots = Some plan"
proof -
  have "\<exists>st'. allocateTimeGoals learningGoals st = Some st'" for st
    using assms
  proof (induction learningGoals arbitrary: st)
    case Nil
    then show ?case by simp
  next
    case (Cons g gs)
    then obtain st1 where "allocateGoalTime g (g_targetHoursPerDay g * 60) st = Some st1"
      using allocateGoalTime_returns [of g] by fastforce
    moreover from Cons obtain st' where "allocateTimeGoals gs st1 = Some st'"
      by fastforce
    ultimately show ?case by simp
  qed
  then show ?thesis
    by (fastforce simp: allocateLearningTime_def split: option.splits)
qed

subsection \<open>The loops over the goals\<close>

lemma filter_key_all: "\<forall>s \<in> set xs. f s = k \<Longrightarrow> filter (\<lambda>s. f s = k) xs = xs"
  by (induction xs) auto

lemma filter_key_none: "\<forall>s \<in> set xs. f s \<noteq> k \<Longrightarrow> filter (\<lambda>s. f s = k) xs = []"
  by (induction xs) auto

lemma sum_filter_sort_key:
  fixes f :: "'a \<Rightarrow> rat"
  shows "sum_list (map f (filter P (sort_key k xs))) = sum_list (map f (filter P xs))"
proof -
  have "mset (map f (filter P (sort_key k xs))) = mset (map f (filter P xs))"
    by simp
  then have "sum_mset (mset (map f (filter P (sort_key k xs)))) = sum_mset (mset (map f (filter P xs)))"
    by (rule arg_cong)
  then show ?thesis
    by (simp only: sum_mset_sum_list)
qed

lemma sessionsOf_Cons:
  assumes n1: "\<forall>s \<in> set new1. it_learningGoalId s = g_id g \<and> ok g s"
    and b1: "bound g (sum_list (map it_duration new1))"
    and b0: "\<And>h. h \<in> set gs \<Longrightarrow> new2 = [] \<Longrightarrow> bound h 0"
    and n2: "sessionsOf gs ok bound new2"
  shows "sessionsOf (g # gs) ok bound (new1 @ new2)"
  unfolding sessionsOf_def
proof (intro conjI impI ballI)
  fix s assume "s \<in> set (new1 @ new2)"
  with n1 n2 show "\<exists>g \<in> set (g # gs). it_learningGoalId s = g_id g \<and> ok g s"
    by (auto simp: sessionsOf_def)
next
  fix h assume d: "distinct (map g_id (g # gs))" and h: "h \<in> set (g # gs)"
  have ids2: "\<forall>s \<in> set new2. it_learningGoalId s \<in> g_id ` set gs"
    using n2 by (auto simp: sessionsOf_def)
  show "bound h (minutesFor h (new1 @ new2))"
  proof (cases "g_id h = g_id g")
    case True
    have "g_id g \<notin> g_id ` set gs"
      using d by simp
    with ids2 have "\<forall>s \<in> set new2. it_learningGoalId s \<noteq> g_id g"
      by metis
    then have "filter (\<lambda>s. it_learningGoalId s = g_id g) new2 = []"
      by (rule filter_key_none)
    moreover have "filter (\<lambda>s. it_learningGoalId s = g_id g) new1 = new1"
      using n1 by (intro filter_key_all) simp
    moreover have "h = g"
      using True d h by (auto simp: image_iff)
    ultimately show ?thesis using b1 True by (simp add: minutesFor_def)
  next
    case False
    with h have hg: "h \<in> set gs" by auto
    have "filter (\<lambda>s. it_learningGoalId s = g_id h) new1 = []"
      using n1 False by (intro filter_key_none) simp
    moreover have "bound h (sum_list (map it_duration (filter (\<lambda>s. it_learningGoalId s = g_id h) new2)))"
      using n2 d hg by (simp add: sessionsOf_def minutesFor_def)
    ultimately show ?thesis by (simp add: minutesFor_def)
  qed
qed

lemma allocateGoals_result:
  "allocateGoals gs st = Inr st' \<Longrightarrow>
   \<exists>new. generatedSchedule st' = generatedSchedule st @ new \<and>
     sessionsOf gs
       (\<lambda>g s. len_min (g_sessionLength g) \<le> it_duration s \<and> it_duration s \<le> len_max (g_sessionLength g))
       (\<lambda>g total. total \<le> max 0 (g_targetHoursPerDay g * 60)) new"
proof (induction gs arbitrary: st)
  case Nil
  then show ?case by (simp add: sessionsOf_def)
next
  case (Cons g gs)
  from Cons.prems obtain st1 where
    s1: "allocateGoalSessions g (getContentTemplate (g_subject g)) (g_targetHoursPerDay g * 60) 0 st = Inr st1"
    and s2: "allocateGoals gs st1 = Inr st'"
    by (auto simp: Let_def split: sum.splits)
  from allocateGoalSessions_result [OF s1] obtain new1 where new1:
    "generatedSchedule st1 = generatedSchedule st @ new1"
    "\<forall>s \<in> set new1. it_learningGoalId s = g_id g \<and>
       len_min (g_sessionLength g) \<le> it_duration s \<and> it_duration s \<le> len_max (g_sessionLength g)"
    "sum_list (map it_duration new1) \<le> max 0 (g_targetHoursPerDay g * 60)"
    by blast
  from Cons.IH [OF s2] obtain new2 where new2:
    "generatedSchedule st' = generatedSchedule st1 @ new2"
    "sessionsOf gs
       (\<lambda>g s. len_min (g_sessionLength g) \<le> it_duration s \<and> it_duration s \<le> len_max (g_sessionLength g))
       (\<lambda>g total. total \<le> max 0 (g_targetHoursPerDay g * 60)) new2"
    by blast
  have "sessionsOf (g # gs)
       (\<lambda>g s. len_min (g_sessionLength g) \<le> it_duration s \<and> it_duration s \<le> len_max (g_sessionLength g))
       (\<lambda>g total. total \<le> max 0 (g_targetHoursPerDay g * 60)) (new1 @ new2)"
    using new1(2,3) new2(2) by (intro sessionsOf_Cons) simp_all
  with new1(1) new2(1) show ?case by simp
qed

lemma allocateTimeGoals_result:
  "allocateTimeGoals gs st = Some st' \<Longrightarrow>
   \<exists>new. generatedSchedule st' = generatedSchedule st @ new \<and>
     sessionsOf gs
       (\<lambda>g s. it_duration s \<le> len_max (g_sessionLength g) \<and>
          (len_min (g_sessionLength g) \<le> len_max (g_sessionLength g) \<longrightarrow>
             len_min (g_sessionLength g) \<le> it_duration s))
       (\<lambda>g total. 0 \<le> g_targetHoursPerDay g \<longrightarrow> 0 < len_min (g_sessionLength g) \<longrightarrow>
          len_min (g_sessionLength g) \<le> len_max (g_sessionLength g) \<longrightarrow>
          total < g_targetHoursPerDay g * 60 + len_min (g_sessionLength g)) new"
proof (induction gs arbitrary: st)
  case Nil
  then show ?case by (simp add: sessionsOf_def)
next
  case (Cons g gs)
  from Cons.prems obtain st1 where
    s1: "allocateGoalTime g (g_targetHoursPerDay g * 60) st = Some st1"
    and s2: "allocateTimeGoals gs st1 = Some st'"
    by (auto split: option.splits)
  from allocateGoalTime_result [OF s1] obtain new1 where new1:
    "generatedSchedule st1 = generatedSchedule st @ new1"
    "\<forall>s \<in> set new1. it_learningGoalId s = g_id g \<and>
       it_duration s \<le> len_max (g_sessionLength g) \<and>
       (len_min (g_sessionLength g) \<le> len_max (g_sessionLength g) \<longrightarrow>
          len_min (g_sessionLength g) \<le> it_duration s)"
    "g_targetHoursPerDay g * 60 \<le> 0 \<longrightarrow> new1 = []"
    "0 < len_min (g_sessionLength g) \<longrightarrow>
       len_min (g_sessionLength g) \<le> len_max (g_sessionLength g) \<longrightarrow> 0 < g_targetHoursPerDay g * 60 \<longrightarrow>
       sum_list (map it_duration new1) < g_targetHoursPerDay g * 60 + len_min (g_sessionLength g)"
    by blast
  from Cons.IH [OF s2] obtain new2 where new2:
    "generatedSchedule st' = generatedSchedule st1 @ new2"
    "sessionsOf gs
       (\<lambda>g s. it_duration s \<le> len_max (g_sessionLength g) \<and>
          (len_min (g_sessionLength g) \<le> len_max (g_sessionLength g) \<longrightarrow>
             len_min (g_sessionLength g) \<le> it_duration s))
       (\<lambda>g total. 0 \<le> g_targetHoursPerDay g \<longrightarrow> 0 < len_min (g_sessionLength g) \<longrightarrow>
          len_min (g_sessionLength g) \<le> len_max (g_sessionLength g) \<longrightarrow>
          total < g_targetHoursPerDay g * 60 + len_min (g_sessionLength g)) new2"
    by blast
  have b1: "0 \<le> g_targetHoursPerDay g \<longrightarrow> 0 < len_min (g_sessionLength g) \<longrightarrow>
          len_min (g_sessionLength g) \<le> len_max (g_sessionLength g) \<longrightarrow>
          sum_list (map it_duration new1) < g_targetHoursPerDay g * 60 + len_min (g_sessionLength g)"
  proof (cases "0 < g_targetHoursPerDay g * 60")
    case True
    with new1(4) show ?thesis by simp
  next
    case False
    with new1(3) have "new1 = []" by simp
    then show ?thesis by simp
  qed
  have "sessionsOf (g # gs)
       (\<lambda>g s. it_duration s \<le> len_max (g_sessionLength g) \<and>
          (len_min (g_sessionLength g) \<le> len_max (g_sessionLength g) \<longrightarrow>
             len_min (g_sessionLength g) \<le> it_duration s))
       (\<lambda>g total. 0 \<le> g_targetHoursPerDay g \<longrightarrow> 0 < len_min (g_sessionLength g) \<longrightarrow>
          len_min (g_sessionLength g) \<le> len_max (g_sessionLength g) \<longrightarrow>
          total < g_targetHoursPerDay g * 60 + len_min (g_sessionLength g)) (new1 @ new2)"
    using new1(2) b1 new2(2) by (intro sessionsOf_Cons) simp_all
  with new1(1) new2(1) show ?case by simp
qed

lemma poolValid_initialState: "poolValid (initialState freeSlots)"
  by (simp add: poolValid_def initialState_def)

lemma allocateGoals_pool:
  "allocateGoals gs st = Inr st' \<Longrightarrow> poolValid st \<Longrightarrow>
     availableSlots st' = availableSlots st \<and> length (store st) \<le> length (store st') \<and>
     take (length (store st)) (store st') = store st"
proof (induction gs arbitrary: st)
  case Nil
  then show ?case by simp
next
  case (Cons g gs)
  from Cons.prems(1) obtain st1 where
    s1: "allocateGoalSessions g (getContentTemplate (g_subject g)) (g_targetHoursPerDay g * 60) 0 st = Inr st1"
    and s2: "allocateGoals gs st1 = Inr st'"
    by (auto simp: Let_def split: sum.splits)
  from allocateGoalSessions_result [OF s1] Cons.prems(2)
  have a: "availableSlots st1 = availableSlots st" "length (store st) \<le> length (store st1)"
    "take (length (store st)) (store st1) = store st"
    by auto
  with Cons.prems(2) have "poolValid st1"
    by (auto simp: poolValid_def)
  from Cons.IH [OF s2 this]
  have b: "availableSlots st' = availableSlots st1" "length (store st1) \<le> length (store st')"
    "take (length (store st1)) (store st') = store st1"
    by auto
  have "take (length (store st)) (store st') = take (length (store st)) (take (length (store st1)) (store st'))"
    using a(2) by (simp add: min_def)
  also have "\<dots> = store st" using a(3) b(3) by simp
  finally show ?case using a b by simp
qed

lemma allocateTimeGoals_pool:
  "allocateTimeGoals gs st = Some st' \<Longrightarrow> poolValid st \<Longrightarrow>
     availableSlots st' = availableSlots st \<and> length (store st) \<le> length (store st') \<and>
     take (length (store st)) (store st') = store st"
proof (induction gs arbitrary: st)
  case Nil
  then show ?case by simp
next
  case (Cons g gs)
  from Cons.prems(1) obtain st1 where
    s1: "allocateGoalTime g (g_targetHoursPerDay g * 60) st = Some st1"
    and s2: "allocateTimeGoals gs st1 = Some st'"
    by (auto split: option.splits)
  from allocateGoalTime_result [OF s1] Cons.prems(2)
  have a: "availableSlots st1 = availableSlots st" "length (store st) \<le> length (store st1)"
    "take (length (store st)) (store st1) = store st"
    by auto
  with Cons.prems(2) have "poolValid st1"
    by (auto simp: poolValid_def)
  from Cons.IH [OF s2 this]
  have b: "availableSlots st' = availableSlots st1" "length (store st1) \<le> length (store st')"
    "take (length (store st1)) (store st') = store st1"
    by auto
  have "take (length (store st)) (store st') = take (length (store st)) (take (length (store st1)) (store st'))"
    using a(2) by (simp add: min_def)
  also have "\<dots> = store st" using a(3) b(3) by simp
  finally show ?case using a b by simp
qed


subsection \<open>Session lengths\<close>

text \<open>
  Claim C9. For every list of goals and every list of free slots, every session of the plan
  of the enhanced allocator belongs to a goal of the list and its duration lies between that
  goal's minimal and maximal session length. The same holds for the plan of
  \<^verbatim>\<open>SchedulingEngine\<close>, whose \<^verbatim>\<open>calculateOptimalSessionDuration\<close> clamps first to the minimum and
  then to the maximum, for goals whose minimum does not exceed their maximum, so that the
  interval is not empty.
\<close>

theorem session_durations_in_range:
  "(allocateIntelligentLearningTime learningGoals freeSlots = Inr plan \<longrightarrow>
      (\<forall>s \<in> set plan. \<exists>g \<in> set learningGoals. it_learningGoalId s = g_id g \<and>
          len_min (g_sessionLength g) \<le> it_duration s \<and>
          it_duration s \<le> len_max (g_sessionLength g))) \<and>
   (allocateLearningTime learningGoals freeSlots = Some plan' \<longrightarrow>
      (\<forall>g \<in> set learningGoals. len_min (g_sessionLength g) \<le> len_max (g_sessionLength g)) \<longrightarrow>
      (\<forall>s \<in> set plan'. \<exists>g \<in> set learningGoals. it_learningGoalId s = g_id g \<and>
          len_min (g_sessionLength g) \<le> it_duration s \<and>
          it_duration s \<le> len_max (g_sessionLength g)))"
proof (intro conjI impI)
  assume "allocateIntelligentLearningTime learningGoals freeSlots = Inr plan"
  then obtain st where st: "allocateGoals learningGoals (initialState freeSlots) = Inr st"
    and plan: "plan = sort_key it_startTime (generatedSchedule st)"
    by (auto simp: allocateIntelligentLearningTime_def split: sum.splits)
  from allocateGoals_result [OF st] plan
  show "\<forall>s \<in> set plan. \<exists>g \<in> set learningGoals. it_learningGoalId s = g_id g \<and>
          len_min (g_sessionLength g) \<le> it_duration s \<and>
          it_duration s \<le> len_max (g_sessionLength g)"
    by (auto simp: sessionsOf_def initialState_def)
next
  assume "allocateLearningTime learningGoals freeSlots = Some plan'"
    and ok: "\<forall>g \<in> set learningGoals. len_min (g_sessionLength g) \<le> len_max (g_sessionLength g)"
  then obtain st where st: "allocateTimeGoals learningGoals (initialState freeSlots) = Some st"
    and plan: "plan' = sort_key it_startTime (generatedSchedule st)"
    by (auto simp: allocateLearningTime_def split: option.splits)
  from allocateTimeGoals_result [OF st] plan ok
  show "\<forall>s \<in> set plan'. \<exists>g \<in> set learningGoals. it_learningGoalId s = g_id g \<and>
          len_min (g_sessionLength g) \<le> it_duration s \<and>
          it_duration s \<le> len_max (g_sessionLength g)"
    by (fastforce simp: sessionsOf_def initialState_def)
qed

text \<open>
  The goal on React on the day with the work commitment: sessions of 45 and 60 minutes in
  the enhanced engine, two of 60 minutes in \<^verbatim>\<open>SchedulingEngine\<close>, all between 30 and 90.
\<close>

theorem session_durations_in_range_witness:
  "(\<exists>plan. allocateIntelligentLearningTime [reactGoal] (findIntelligentFreeSlots workday) = Inr plan \<and>
      map it_duration plan = [45, 60] \<and> list_all (inRange reactGoal) plan) \<and>
   (\<exists>plan'. allocateLearningTime [reactGoal] (findIntelligentFreeSlots workday) = Some plan' \<and>
      map it_duration plan' = [60, 60] \<and> list_all (inRange reactGoal) plan')"
proof -
  have "map_sum id (map it_duration)
      (allocateIntelligentLearningTime [reactGoal] (findIntelligentFreeSlots workday)) = Inr [45, 60]"
    by code_simp
  then obtain plan where
    p: "allocateIntelligentLearningTime [reactGoal] (findIntelligentFreeSlots workday) = Inr plan"
      "map it_duration plan = [45, 60]"
    by (cases "allocateIntelligentLearningTime [reactGoal] (findIntelligentFreeSlots workday)") auto
  have "map_option (map it_duration)
      (allocateLearningTime [reactGoal] (findIntelligentFreeSlots workday)) = Some [60, 60]"
    by code_simp
  then obtain plan' where
    p': "allocateLearningTime [reactGoal] (findIntelligentFreeSlots workday) = Some plan'"
      "map it_duration plan' = [60, 60]"
    by (cases "allocateLearningTime [reactGoal] (findIntelligentFreeSlots workday)") auto
  have ok: "\<forall>g \<in> set [reactGoal]. len_min (g_sessionLength g) \<le> len_max (g_sessionLength g)"
    by (simp add: reactGoal_def)
  note t = session_durations_in_range
    [of "[reactGoal]" "findIntelligentFreeSlots workday" plan plan']
  from t p(1) have "list_all (inRange reactGoal) plan"
    by (simp add: list_all_iff inRange_def)
  with p have "allocateIntelligentLearningTime [reactGoal] (findIntelligentFreeSlots workday) = Inr plan \<and>
      map it_duration plan = [45, 60] \<and> list_all (inRange reactGoal) plan"
    by simp
  then have a: "\<exists>plan. allocateIntelligentLearningTime [reactGoal] (findIntelligentFreeSlots workday) = Inr plan \<and>
      map it_duration plan = [45, 60] \<and> list_all (inRange reactGoal) plan"
    by (rule exI)
  from t p'(1) ok have "list_all (inRange reactGoal) plan'"
    by (simp add: list_all_iff inRange_def)
  with p' have "allocateLearningTime [reactGoal] (findIntelligentFreeSlots workday) = Some plan' \<and>
      map it_duration plan' = [60, 60] \<and> list_all (inRange reactGoal) plan'"
    by simp
  then have b: "\<exists>plan'. allocateLearningTime [reactGoal] (findIntelligentFreeSlots workday) = Some plan' \<and>
      map it_duration plan' = [60, 60] \<and> list_all (inRange reactGoal) plan'"
    by (rule exI)
  from a b show ?thesis by (rule conjI)
qed

subsection \<open>The minutes of a goal\<close>

text \<open>
  Claim C2, as amended. For every goal of a list with distinct ids whose daily target is
  not negative, the sessions that the enhanced allocator generates for the goal last at most
  the target (\<^verbatim>\<open>targetHoursPerDay * 60\<close> minutes) in total. In \<^verbatim>\<open>SchedulingEngine\<close> a session
  is raised to the goal's minimal length even when fewer minutes are left, and the sessions
  of a goal with \<open>0 < min \<le> max\<close> last less than the target plus the minimal session length.
\<close>

theorem session_minutes_bounded:
  assumes "distinct (map g_id learningGoals)" and "g \<in> set learningGoals"
    and "0 \<le> g_targetHoursPerDay g"
  shows "(allocateIntelligentLearningTime learningGoals freeSlots = Inr plan \<longrightarrow>
            minutesFor g plan \<le> g_targetHoursPerDay g * 60) \<and>
         (allocateLearningTime learningGoals freeSlots = Some plan' \<longrightarrow>
            0 < len_min (g_sessionLength g) \<longrightarrow>
            len_min (g_sessionLength g) \<le> len_max (g_sessionLength g) \<longrightarrow>
            minutesFor g plan' < g_targetHoursPerDay g * 60 + len_min (g_sessionLength g))"
proof (intro conjI impI)
  assume "allocateIntelligentLearningTime learningGoals freeSlots = Inr plan"
  then obtain st where st: "allocateGoals learningGoals (initialState freeSlots) = Inr st"
    and plan: "plan = sort_key it_startTime (generatedSchedule st)"
    by (auto simp: allocateIntelligentLearningTime_def split: sum.splits)
  from allocateGoals_result [OF st] assms
  have "minutesFor g (generatedSchedule st) \<le> max 0 (g_targetHoursPerDay g * 60)"
    by (auto simp: sessionsOf_def initialState_def)
  with assms(3) show "minutesFor g plan \<le> g_targetHoursPerDay g * 60"
    by (simp add: plan minutesFor_def sum_filter_sort_key max_def)
next
  assume "allocateLearningTime learningGoals freeSlots = Some plan'"
    and h: "0 < len_min (g_sessionLength g)"
      "len_min (g_sessionLength g) \<le> len_max (g_sessionLength g)"
  then obtain st where st: "allocateTimeGoals learningGoals (initialState freeSlots) = Some st"
    and plan: "plan' = sort_key it_startTime (generatedSchedule st)"
    by (auto simp: allocateLearningTime_def split: option.splits)
  from allocateTimeGoals_result [OF st] assms h
  have "minutesFor g (generatedSchedule st)
      < g_targetHoursPerDay g * 60 + len_min (g_sessionLength g)"
    by (auto simp: sessionsOf_def initialState_def)
  then show "minutesFor g plan' < g_targetHoursPerDay g * 60 + len_min (g_sessionLength g)"
    by (simp add: plan minutesFor_def sum_filter_sort_key)
qed

text \<open>
  The goal of 75 minutes a day with one free evening slot: 45 and 30 minutes in the enhanced
  engine, 75 in total; 60 and 30 minutes in \<^verbatim>\<open>SchedulingEngine\<close>, 90 in total, which is less
  than 75 + 30.
\<close>

theorem session_minutes_bounded_witness:
  "distinct (map g_id [pythonGoal]) \<and> pythonGoal \<in> set [pythonGoal] \<and>
   0 \<le> g_targetHoursPerDay pythonGoal \<and>
   0 < len_min (g_sessionLength pythonGoal) \<and>
   len_min (g_sessionLength pythonGoal) \<le> len_max (g_sessionLength pythonGoal) \<and>
   map_sum id (minutesFor pythonGoal) (allocateIntelligentLearningTime [pythonGoal] eveningSlot) = Inr 75 \<and>
   map_option (minutesFor pythonGoal) (allocateLearningTime [pythonGoal] eveningSlot) = Some 90 \<and>
   (75::rat) \<le> g_targetHoursPerDay pythonGoal * 60 \<and>
   (90::rat) < g_targetHoursPerDay pythonGoal * 60 + len_min (g_sessionLength pythonGoal)"
proof -
  have h: "distinct (map g_id [pythonGoal])" "pythonGoal \<in> set [pythonGoal]"
    "0 \<le> g_targetHoursPerDay pythonGoal"
    by (simp_all add: pythonGoal_def)
  have m: "0 < len_min (g_sessionLength pythonGoal)"
    "len_min (g_sessionLength pythonGoal) \<le> len_max (g_sessionLength pythonGoal)"
    by (simp_all add: pythonGoal_def)
  have e: "map_sum id (minutesFor pythonGoal)
      (allocateIntelligentLearningTime [pythonGoal] eveningSlot) = Inr 75"
    by code_simp
  then obtain plan where
    p: "allocateIntelligentLearningTime [pythonGoal] eveningSlot = Inr plan"
      "minutesFor pythonGoal plan = 75"
    by (cases "allocateIntelligentLearningTime [pythonGoal] eveningSlot") auto
  have e': "map_option (minutesFor pythonGoal) (allocateLearningTime [pythonGoal] eveningSlot) = Some 90"
    by code_simp
  then obtain plan' where
    p': "allocateLearningTime [pythonGoal] eveningSlot = Some plan'"
      "minutesFor pythonGoal plan' = 90"
    by (cases "allocateLearningTime [pythonGoal] eveningSlot") auto
  from session_minutes_bounded [OF h, of eveningSlot plan plan'] p p' m
  have "(75::rat) \<le> g_targetHoursPerDay pythonGoal * 60"
    "(90::rat) < g_targetHoursPerDay pythonGoal * 60 + len_min (g_sessionLength pythonGoal)"
    by simp_all
  with h m e e' show ?thesis by simp
qed

text \<open>
  Claim C2 as stated fails in \<^verbatim>\<open>SchedulingEngine\<close>: for the goal of 75 minutes a day
  (minimal session length 30, preferred 60) and one free evening slot, it generates a session
  of 60 minutes and then, with 15 minutes left, one of 30 minutes: 90 minutes in total.
\<close>

theorem session_minutes_counterexample:
  "map_option (map it_duration) (allocateLearningTime [pythonGoal] eveningSlot) = Some [60, 30] \<and>
   map_option (minutesFor pythonGoal) (allocateLearningTime [pythonGoal] eveningSlot) = Some 90 \<and>
   g_targetHoursPerDay pythonGoal * 60 = 75 \<and> \<not> (90 :: rat) \<le> 75"
proof -
  have "map_option (map it_duration) (allocateLearningTime [pythonGoal] eveningSlot) = Some [60, 30]"
    by code_simp
  moreover have "map_option (minutesFor pythonGoal) (allocateLearningTime [pythonGoal] eveningSlot) = Some 90"
    by code_simp
  moreover have "g_targetHoursPerDay pythonGoal * 60 = 75"
    by (simp add: pythonGoal_def)
  ultimately show ?thesis by simp
qed

subsection \<open>The working pool\<close>

lemma map_nth_upt_take: "n \<le> length xs \<Longrightarrow> map (\<lambda>r. xs ! r) [0 ..< n] = take n xs"
  by (simp add: list_eq_iff_nth_eq)

text \<open>
  Claim C10 says that a slot which a session has used is shrunk in place when at least 30
  minutes of it remain and is removed from the pool otherwise. \<^verbatim>\<open>updateAvailableSlot\<close> is
  written to do so, but both allocators hand it the scored copy that \<^verbatim>\<open>findBestSlotForGoal\<close>
  has made of the slot, which \<^verbatim>\<open>indexOf\<close> never finds in the pool. For all goals and all
  lists of free slots, the pool after the allocation of either engine therefore holds
  exactly the slots it was given, with their durations and starts unchanged; so every slot
  of the pool keeps a duration of at least 30 minutes, and no slot is ever shrunk or removed.
\<close>

theorem pool_unchanged_by_allocation:
  "(allocateGoals learningGoals (initialState freeSlots) = Inr st \<longrightarrow> poolSlots st = freeSlots) \<and>
   (allocateTimeGoals learningGoals (initialState freeSlots) = Some st' \<longrightarrow> poolSlots st' = freeSlots)"
proof (intro conjI impI)
  assume "allocateGoals learningGoals (initialState freeSlots) = Inr st"
  from allocateGoals_pool [OF this poolValid_initialState]
  have "availableSlots st = [0 ..< length freeSlots]" "length freeSlots \<le> length (store st)"
    "take (length freeSlots) (store st) = freeSlots"
    by (simp_all add: initialState_def)
  then show "poolSlots st = freeSlots"
    by (simp add: poolSlots_def map_nth_upt_take)
next
  assume "allocateTimeGoals learningGoals (initialState freeSlots) = Some st'"
  from allocateTimeGoals_pool [OF this poolValid_initialState]
  have "availableSlots st' = [0 ..< length freeSlots]" "length freeSlots \<le> length (store st')"
    "take (length freeSlots) (store st') = freeSlots"
    by (simp_all add: initialState_def)
  then show "poolSlots st' = freeSlots"
    by (simp add: poolSlots_def map_nth_upt_take)
qed

text \<open>
  The day with the work commitment and the goal that prefers the morning: both of its
  30-minute sessions are placed at 08:15 in the free slot 08:15-08:45, which the first
  session fills; the slot is still in the pool afterwards, with its 30 minutes.
\<close>

theorem pool_unchanged_by_allocation_witness:
  "\<exists>st. allocateGoals [morningGoal] (initialState (findIntelligentFreeSlots workday)) = Inr st \<and>
     map itemSpan (generatedSchedule st) = [(495, 525), (495, 525)] \<and>
     availableSlots st = [0, 1, 2, 3] \<and>
     map slotSpan (poolSlots st) = [(360, 405), (495, 525), (1035, 1065), (1155, 1380)] \<and>
     map sl_duration (poolSlots st) = [45, 30, 30, 225] \<and>
     poolSlots st = findIntelligentFreeSlots workday"
proof -
  have "map_sum id (\<lambda>st. (map itemSpan (generatedSchedule st), availableSlots st,
            map slotSpan (poolSlots st), map sl_duration (poolSlots st)))
          (allocateGoals [morningGoal] (initialState (findIntelligentFreeSlots workday))) =
        Inr ([(495, 525), (495, 525)], [0, 1, 2, 3],
             [(360, 405), (495, 525), (1035, 1065), (1155, 1380)], [45, 30, 30, 225])"
    by code_simp
  then obtain st where
    st: "allocateGoals [morningGoal] (initialState (findIntelligentFreeSlots workday)) = Inr st"
      "map itemSpan (generatedSchedule st) = [(495, 525), (495, 525)]"
      "availableSlots st = [0, 1, 2, 3]"
      "map slotSpan (poolSlots st) = [(360, 405), (495, 525), (1035, 1065), (1155, 1380)]"
      "map sl_duration (poolSlots st) = [45, 30, 30, 225]"
    by (cases "allocateGoals [morningGoal] (initialState (findIntelligentFreeSlots workday))") auto
  from pool_unchanged_by_allocation
    [of "[morningGoal]" "findIntelligentFreeSlots workday" st, THEN conjunct1] st(1)
  have "poolSlots st = findIntelligentFreeSlots workday"
    by simp
  with st have "allocateGoals [morningGoal] (initialState (findIntelligentFreeSlots workday)) = Inr st \<and>
     map itemSpan (generatedSchedule st) = [(495, 525), (495, 525)] \<and>
     availableSlots st = [0, 1, 2, 3] \<and>
     map slotSpan (poolSlots st) = [(360, 405), (495, 525), (1035, 1065), (1155, 1380)] \<and>
     map sl_duration (poolSlots st) = [45, 30, 30, 225] \<and>
     poolSlots st = findIntelligentFreeSlots workday"
    by simp
  then show ?thesis
    by (rule exI)
qed

subsection \<open>The daily plan\<close>

text \<open>
  Claim C1 says that no two entries of the daily plan overlap. The enhanced allocator
  breaks it, for the reason given with the pool: a slot that a session has used stays in
  the pool as it was, and the next session of the goal is placed at the same start. On a
  day without commitments the goal on English gets its two 30-minute sessions both from
  13:15 to 13:45.
\<close>

theorem daily_plan_overlap:
  "map_sum id (map itemSpan) (dailySchedule [] [englishGoal]) = Inr [(795, 825), (795, 825)] \<and>
   map_sum id (map it_sessionTopic) (dailySchedule [] [englishGoal]) =
     Inr [Some ''Vocabulary Building'', Some ''Grammar Practice'']"
proof
  show "map_sum id (map itemSpan) (dailySchedule [] [englishGoal]) = Inr [(795, 825), (795, 825)]"
    by code_simp
  show "map_sum id (map it_sessionTopic) (dailySchedule [] [englishGoal]) =
     Inr [Some ''Vocabulary Building'', Some ''Grammar Practice'']"
    by code_simp
qed

text \<open>
  Claim C3, as amended. For a single work commitment from 09:00 to 17:00 and a goal on
  React of two hours a day with session lengths 30, 90 and 60 (preferred), of medium priority
  and without preferred times of day, the pipeline finds four free slots, since the
  breakfast and the dinner window are busy as well: 06:00-06:45, 08:15-08:45, 17:15-17:45
  and 19:15-23:00. It generates exactly two sessions, both within the slot 19:15-23:00:
  ``Components & JSX'' of 45 minutes, the length the template gives it, and then
  ``State & Props'' of 60 minutes.
\<close>

theorem react_scenario:
  "map slotSpan (findIntelligentFreeSlots workday) =
     [(360, 405), (495, 525), (1035, 1065), (1155, 1380)] \<and>
   map_sum id (map sessionSummary) (dailySchedule workday [reactGoal]) =
     Inr [(Some ''Components & JSX'', 45), (Some ''State & Props'', 60)] \<and>
   map_sum id (list_all (withinSpan 1155 1380)) (dailySchedule workday [reactGoal]) = Inr True"
proof (intro conjI)
  show "map slotSpan (findIntelligentFreeSlots workday) =
     [(360, 405), (495, 525), (1035, 1065), (1155, 1380)]"
    by code_simp
  show "map_sum id (map sessionSummary) (dailySchedule workday [reactGoal]) =
     Inr [(Some ''Components & JSX'', 45), (Some ''State & Props'', 60)]"
    by code_simp
  show "map_sum id (list_all (withinSpan 1155 1380)) (dailySchedule workday [reactGoal]) = Inr True"
    by code_simp
qed

text \<open>
  Claim C3 as stated fails: the pipeline finds four free slots, not two, and the first of
  the two sessions lasts 45 minutes, not 60.
\<close>

theorem react_scenario_counterexample:
  "length (findIntelligentFreeSlots workday) = 4 \<and>
   map_sum id (map it_duration) (dailySchedule workday [reactGoal]) = Inr [45, 60]"
proof
  show "length (findIntelligentFreeSlots workday) = 4"
    by code_simp
  show "map_sum id (map it_duration) (dailySchedule workday [reactGoal]) = Inr [45, 60]"
    by code_simp
qed

end
